theory Spec2Isabelle
  imports Complex_Main
begin

section \<open>Data model of \<^verbatim>\<open>sector_flow_model.py\<close>\<close>

text \<open>
  An OHLC frame is a pandas DataFrame with the four float columns Open, High, Low, Close
  and a timestamp index. It is modelled as the list of its rows in index order; prices are
  real numbers. A float cell that may be NaN is a \<open>real option\<close>, with \<open>None\<close> for NaN.
  The index of a frame is strictly ascending (no duplicate timestamps), as the data
  provider delivers it; the statements that need this say so (\<open>ascending\<close>).
\<close>

type_synonym timestamp = int

type_synonym cell = "real option"

record 'a ohlc =
  Open :: 'a
  High :: 'a
  Low :: 'a
  Close :: 'a

type_synonym bar = "real ohlc"

type_synonym frame = "(timestamp \<times> bar) list"

text \<open>A frame whose cells may be NaN (after \<^verbatim>\<open>reindex\<close>, \<^verbatim>\<open>replace\<close> or a division).\<close>

type_synonym nan_frame = "(timestamp \<times> cell ohlc) list"

definition ascending :: "(timestamp \<times> 'a) list \<Rightarrow> bool" where
  "ascending df = sorted_wrt (<) (map fst df)"

text \<open>The parameters of the module.\<close>

definition YEARLY_RANGE_DAYS :: nat where "YEARLY_RANGE_DAYS = 28"

definition ATR_PERIOD :: nat where "ATR_PERIOD = 20"

definition NEAR_THRESH_ATR :: real where "NEAR_THRESH_ATR = 1 / 2"

definition FAST_LEN :: nat where "FAST_LEN = 5"

definition SLOW_LEN :: nat where "SLOW_LEN = 10"

section \<open>Rolling windows\<close>

text \<open>
  \<open>window n xs i\<close> holds the (at most \<open>n\<close>) entries of \<open>xs\<close> that end at position \<open>i\<close>:
  the trailing window of \<^verbatim>\<open>Series.rolling(n)\<close> at row \<open>i\<close>.
\<close>

definition window :: "nat \<Rightarrow> 'a list \<Rightarrow> nat \<Rightarrow> 'a list" where
  "window n xs i = drop (Suc i - n) (take (Suc i) xs)"

fun max_of :: "real list \<Rightarrow> real" where
  "max_of [] = 0"
| "max_of (x # xs) = fold max xs x"

fun min_of :: "real list \<Rightarrow> real" where
  "min_of [] = 0"
| "min_of (x # xs) = fold min xs x"

definition mean :: "real list \<Rightarrow> real" where
  "mean xs = sum_list xs / real (length xs)"

text \<open>
  \<^verbatim>\<open>rolling(n).max()\<close>, \<^verbatim>\<open>rolling(n).min()\<close> and \<^verbatim>\<open>rolling(n).mean()\<close> use
  \<^verbatim>\<open>min_periods = n\<close>: the value is NaN until \<open>n\<close> observations are in the window.
\<close>

definition rolling_max :: "nat \<Rightarrow> real list \<Rightarrow> cell list" where
  "rolling_max n xs =
     map (\<lambda>i. if Suc i < n then None else Some (max_of (window n xs i))) [0..<length xs]"

definition rolling_min :: "nat \<Rightarrow> real list \<Rightarrow> cell list" where
  "rolling_min n xs =
     map (\<lambda>i. if Suc i < n then None else Some (min_of (window n xs i))) [0..<length xs]"

definition rolling_mean :: "nat \<Rightarrow> real list \<Rightarrow> cell list" where
  "rolling_mean n xs =
     map (\<lambda>i. if Suc i < n then None else Some (mean (window n xs i))) [0..<length xs]"

text \<open>\<^verbatim>\<open>rolling(period, min_periods=1).mean()\<close>: the window shrinks at the start, never NaN.\<close>

definition rolling_mean_min1 :: "nat \<Rightarrow> real list \<Rightarrow> real list" where
  "rolling_mean_min1 n xs = map (\<lambda>i. mean (window n xs i)) [0..<length xs]"

section \<open>Average true range\<close>

text \<open>
  \<^verbatim>\<open>atr(df, period)\<close>. \<^verbatim>\<open>Close.shift()\<close> is NaN on the first row, so the two columns built
  from it are NaN there and the row-wise \<^verbatim>\<open>max(axis=1)\<close>, which skips NaN, is
  \<open>|High - Low|\<close> on that row.
\<close>

definition true_range :: "bar list \<Rightarrow> real list" where
  "true_range bs =
     map (\<lambda>i. let b = bs ! i;
                  high_low = \<bar>High b - Low b\<bar>
              in if i = 0 then high_low
                 else let prev_close = Close (bs ! (i - 1));
                          high_close = \<bar>High b - prev_close\<bar>;
                          low_close = \<bar>Low b - prev_close\<bar>
                      in max (max high_low high_close) low_close)
         [0..<length bs]"

definition atr :: "bar list \<Rightarrow> nat \<Rightarrow> real list" where
  "atr bs period = (if bs = [] then [] else rolling_mean_min1 period (true_range bs))"

section \<open>Series algebra\<close>

text \<open>Cell-wise helpers on rows.\<close>

definition map_ohlc :: "('a \<Rightarrow> 'b) \<Rightarrow> 'a ohlc \<Rightarrow> 'b ohlc" where
  "map_ohlc f b = \<lparr>Open = f (Open b), High = f (High b), Low = f (Low b), Close = f (Close b)\<rparr>"

definition zip_ohlc :: "('a \<Rightarrow> 'b \<Rightarrow> 'c) \<Rightarrow> 'a ohlc \<Rightarrow> 'b ohlc \<Rightarrow> 'c ohlc" where
  "zip_ohlc f a b =
     \<lparr>Open = f (Open a) (Open b), High = f (High a) (High b),
      Low = f (Low a) (Low b), Close = f (Close a) (Close b)\<rparr>"

text \<open>\<^verbatim>\<open>DataFrame.dropna()\<close>: the rows without a NaN cell.\<close>

definition no_nan :: "cell ohlc \<Rightarrow> bool" where
  "no_nan b = (Open b \<noteq> None \<and> High b \<noteq> None \<and> Low b \<noteq> None \<and> Close b \<noteq> None)"

definition dropna :: "nan_frame \<Rightarrow> frame" where
  "dropna df = map (\<lambda>(t, b). (t, map_ohlc the b)) (filter (\<lambda>(t, b). no_nan b) df)"

text \<open>
  \<^verbatim>\<open>Index.intersection\<close> of two ascending indexes: the labels of the first that occur
  in the second, in order.
\<close>

definition index_intersection :: "timestamp list \<Rightarrow> timestamp list \<Rightarrow> timestamp list" where
  "index_intersection a b = filter (\<lambda>t. t \<in> set b) a"

text \<open>
  \<^verbatim>\<open>df.loc[idx]\<close>: for each label of \<open>idx\<close>, in order, the rows of \<open>df\<close> with that label.
  (A label without a row raises KeyError; \<open>idx\<close> is always a part of the index of \<open>df\<close>.)
\<close>

definition loc :: "timestamp list \<Rightarrow> (timestamp \<times> 'a) list \<Rightarrow> (timestamp \<times> 'a) list" where
  "loc idx df = concat (map (\<lambda>t. filter (\<lambda>r. fst r = t) df) idx)"

text \<open>\<^verbatim>\<open>df.reindex(idx)\<close>: one row per label of \<open>idx\<close>, NaN where \<open>df\<close> has no such label.\<close>

definition nan_row :: "cell ohlc" where
  "nan_row = \<lparr>Open = None, High = None, Low = None, Close = None\<rparr>"

definition reindex :: "timestamp list \<Rightarrow> frame \<Rightarrow> nan_frame" where
  "reindex idx df =
     map (\<lambda>t. (t, case map_of df t of None \<Rightarrow> nan_row | Some b \<Rightarrow> map_ohlc Some b)) idx"

text \<open>\<^verbatim>\<open>resync_index(dfs)\<close>: the common index of the non-empty frames of a dict.\<close>

definition resync_index :: "(string \<times> frame) list \<Rightarrow> timestamp list" where
  "resync_index dfs =
     (let indices = map (\<lambda>(k, df). map fst df) (filter (\<lambda>(k, df). df \<noteq> []) dfs)
      in case indices of
           [] \<Rightarrow> []
         | first # rest \<Rightarrow> fold (\<lambda>idx common. index_intersection common idx) rest first)"

definition normalize_ohlc :: "frame \<Rightarrow> real \<Rightarrow> frame" where
  "normalize_ohlc df base =
     (if df = [] then df
      else let first_close = Close (snd (hd df));
               scale = (if first_close \<noteq> 0 then base / first_close else 1)
           in map (\<lambda>(t, b). (t, map_ohlc (\<lambda>v. v * scale) b)) df)"

text \<open>
  \<^verbatim>\<open>ohlc_divide(numer, denom)\<close>. \<^verbatim>\<open>replace(0, np.nan)\<close> turns a zero of the denominator
  into NaN, a division by NaN is NaN, and \<^verbatim>\<open>dropna\<close> removes the rows it reaches.
\<close>

definition replace_zero_nan :: "real \<Rightarrow> cell" where
  "replace_zero_nan v = (if v = 0 then None else Some v)"

definition nan_div :: "real \<Rightarrow> cell \<Rightarrow> cell" where
  "nan_div n d = (case d of None \<Rightarrow> None | Some v \<Rightarrow> Some (n / v))"

definition ohlc_divide :: "frame \<Rightarrow> frame \<Rightarrow> frame" where
  "ohlc_divide numer denom =
     (if numer = [] \<or> denom = [] then []
      else let idx = index_intersection (map fst numer) (map fst denom)
           in if idx = [] then []
              else let n = loc idx numer;
                       d = map (\<lambda>(t, b). (t, map_ohlc replace_zero_nan b)) (loc idx denom)
                   in dropna (map (\<lambda>((t, nb), (t', db)). (t, zip_ohlc nan_div nb db)) (zip n d)))"

section \<open>Index synthesizer\<close>

text \<open>
  \<^verbatim>\<open>pd.concat(frames, axis=1)\<close> joins the frames on the union of their indexes, in
  ascending order; a frame without a label has NaN in its columns on that row.
\<close>

definition union_index :: "frame list \<Rightarrow> timestamp list" where
  "union_index frames = sort (remdups (concat (map (map fst) frames)))"

definition column_cells :: "(bar \<Rightarrow> real) \<Rightarrow> frame list \<Rightarrow> timestamp \<Rightarrow> cell list" where
  "column_cells fld frames t = map (\<lambda>df. map_option fld (map_of df t)) frames"

text \<open>\<^verbatim>\<open>mean(axis=1)\<close> skips NaN and is NaN on a row without a value.\<close>

definition values_of :: "cell list \<Rightarrow> real list" where
  "values_of cs = concat (map (\<lambda>c. case c of None \<Rightarrow> [] | Some v \<Rightarrow> [v]) cs)"

definition mean_skipna :: "cell list \<Rightarrow> cell" where
  "mean_skipna cs = (if values_of cs = [] then None else Some (mean (values_of cs)))"

text \<open>
  \<^verbatim>\<open>ew_index_from_members(ohlc_members, base)\<close>. The dict is the list of its items.
  The merged frame has one column named Open (High, Low, Close) per member, so
  \<^verbatim>\<open>cols = [c for c in merged.columns if c.endswith(col)]\<close> lists that name once per member
  and \<^verbatim>\<open>merged[cols]\<close> selects, for each entry of the list, all columns of that name.
\<close>

definition selected_cells :: "(bar \<Rightarrow> real) \<Rightarrow> frame list \<Rightarrow> timestamp \<Rightarrow> cell list" where
  "selected_cells fld frames t = concat (replicate (length frames) (column_cells fld frames t))"

definition ew_row :: "frame list \<Rightarrow> timestamp \<Rightarrow> cell ohlc" where
  "ew_row frames t =
     \<lparr>Open = mean_skipna (selected_cells Open frames t),
      High = mean_skipna (selected_cells High frames t),
      Low = mean_skipna (selected_cells Low frames t),
      Close = mean_skipna (selected_cells Close frames t)\<rparr>"

definition ew_index_from_members :: "(string \<times> frame) list \<Rightarrow> real \<Rightarrow> frame" where
  "ew_index_from_members ohlc_members base =
     (let members = filter (\<lambda>(k, v). v \<noteq> []) ohlc_members
      in if members = [] then []
         else let common_idx = resync_index members;
                  frames = map (\<lambda>(k, df). normalize_ohlc
                                  (if common_idx \<noteq> [] then dropna (reindex common_idx df) else df)
                                  base) members
              in if frames = [] then []
                 else dropna (map (\<lambda>t. (t, ew_row frames t)) (union_index frames)))"

text \<open>
  \<^verbatim>\<open>np.log\<close> of a cell is NaN on NaN and on a negative number, minus infinity on zero.
  The mean of a row skips NaN; \<^verbatim>\<open>np.exp\<close> of minus infinity is zero.
\<close>

datatype logval = NaN | NegInf | Fin real

definition np_log :: "cell \<Rightarrow> logval" where
  "np_log c = (case c of None \<Rightarrow> NaN
               | Some x \<Rightarrow> if x > 0 then Fin (ln x) else if x = 0 then NegInf else NaN)"

fun fin_value :: "logval \<Rightarrow> real" where
  "fin_value (Fin x) = x"
| "fin_value _ = 0"

definition mean_log :: "logval list \<Rightarrow> logval" where
  "mean_log ls =
     (let present = filter (\<lambda>l. l \<noteq> NaN) ls
      in if present = [] then NaN
         else if NegInf \<in> set present then NegInf
         else Fin (mean (map fin_value present)))"

definition np_exp :: "logval \<Rightarrow> cell" where
  "np_exp l = (case l of NaN \<Rightarrow> None | NegInf \<Rightarrow> Some 0 | Fin x \<Rightarrow> Some (exp x))"

definition geo_cell :: "(bar \<Rightarrow> real) \<Rightarrow> frame list \<Rightarrow> timestamp \<Rightarrow> cell" where
  "geo_cell fld frames t = np_exp (mean_log (map np_log (column_cells fld frames t)))"

definition geo_row :: "frame list \<Rightarrow> timestamp \<Rightarrow> cell ohlc" where
  "geo_row frames t =
     \<lparr>Open = geo_cell Open frames t, High = geo_cell High frames t,
      Low = geo_cell Low frames t, Close = geo_cell Close frames t\<rparr>"

text \<open>
  \<^verbatim>\<open>build_yahoo_composite(period, interval)\<close>. \<open>fetch_data\<close> is the provider for the given
  period and interval: it maps a ticker to its frame, empty when the download failed.
\<close>

definition tickers :: "string list" where
  "tickers = [''^IXIC'', ''^GSPC'', ''^DJI'', ''^RUT'']"

definition fallbacks :: "string list" where
  "fallbacks = [''QQQ'', ''SPY'', ''DIA'', ''IWM'']"

definition yahoo_data :: "(string \<Rightarrow> frame) \<Rightarrow> (string \<times> frame) list" where
  "yahoo_data fetch_data =
     concat (map (\<lambda>(t, alt). let df = fetch_data t;
                                 df = (if df = [] then fetch_data alt else df)
                             in if df \<noteq> [] then [(t, df)] else [])
                 (zip tickers fallbacks))"

definition composite_of :: "(string \<times> frame) list \<Rightarrow> frame" where
  "composite_of data =
     (if data = [] then []
      else let idx = resync_index data;
               frames = map (\<lambda>(t, df). dropna (reindex idx df)) data
           in dropna (map (\<lambda>t. (t, geo_row frames t)) idx))"

definition build_yahoo_composite :: "(string \<Rightarrow> frame) \<Rightarrow> frame" where
  "build_yahoo_composite fetch_data = composite_of (yahoo_data fetch_data)"

section \<open>Regime models\<close>

text \<open>Comparisons of float cells: any comparison with NaN is false.\<close>

definition nan_gt :: "cell \<Rightarrow> cell \<Rightarrow> bool" where
  "nan_gt a b = (case (a, b) of (Some x, Some y) \<Rightarrow> x > y | _ \<Rightarrow> False)"

definition nan_lt :: "cell \<Rightarrow> cell \<Rightarrow> bool" where
  "nan_lt a b = (case (a, b) of (Some x, Some y) \<Rightarrow> x < y | _ \<Rightarrow> False)"

text \<open>Python's \<^verbatim>\<open>p in s\<close> on strings: \<open>p\<close> occurs in \<open>s\<close> as a contiguous substring.\<close>

fun starts_with :: "string \<Rightarrow> string \<Rightarrow> bool" where
  "starts_with [] s = True"
| "starts_with (p # ps) [] = False"
| "starts_with (p # ps) (c # cs) = (p = c \<and> starts_with ps cs)"

fun str_in :: "string \<Rightarrow> string \<Rightarrow> bool" where
  "str_in p [] = (p = [])"
| "str_in p (c # cs) = (starts_with p (c # cs) \<or> str_in p cs)"

definition classify_macro :: "real \<Rightarrow> real \<Rightarrow> real \<Rightarrow> real \<Rightarrow> string" where
  "classify_macro close hi lo mid =
     (if close > mid \<and> close > hi then ''Strong Bull''
      else if close > mid then ''Weak Bull''
      else if close < mid \<and> close < lo then ''Strong Bear''
      else if close < mid then ''Weak Bear''
      else ''Neutral'')"

text \<open>
  \<^verbatim>\<open>_classify_micro(df, fast_len, slow_len, macro)\<close> reads the last entry of the rolling
  means of Close over the frame it is given. Every caller passes a frame with at least one
  row (the prefix \<^verbatim>\<open>df.iloc[:i+1]\<close>, or a session frame that was checked not to be empty).
\<close>

definition last_cell :: "cell list \<Rightarrow> cell" where
  "last_cell cs = (if cs = [] then None else last cs)"

definition classify_micro :: "bar list \<Rightarrow> nat \<Rightarrow> nat \<Rightarrow> string \<Rightarrow> string" where
  "classify_micro df fast_len slow_len macro =
     (let fast_ma = last_cell (rolling_mean fast_len (map Close df));
          slow_ma = last_cell (rolling_mean slow_len (map Close df))
      in if str_in ''Bull'' macro then
           (if nan_gt fast_ma slow_ma then ''Micro Bull+'' else ''Micro Bear'')
         else if str_in ''Bear'' macro then
           (if nan_lt fast_ma slow_ma then ''Micro Bear'' else ''Micro Bull'')
         else ''Neutral'')"

definition classify_transition :: "real \<Rightarrow> real \<Rightarrow> real \<Rightarrow> real \<Rightarrow> real \<Rightarrow> real \<Rightarrow> string" where
  "classify_transition close hi lo mid atr_val near_thresh_atr =
     (if atr_val \<le> 0 then ''None''
      else let dist_hi = (hi - close) / atr_val;
               dist_lo = (close - lo) / atr_val
           in if close < hi \<and> close > mid \<and> dist_hi < near_thresh_atr then ''Approaching Weak Bull''
              else if close > hi \<and> dist_hi < near_thresh_atr then ''Approaching Strong Bull''
              else if close > lo \<and> close < mid \<and> dist_lo < near_thresh_atr then ''Approaching Weak Bear''
              else if close < lo \<and> dist_lo < near_thresh_atr then ''Approaching Strong Bear''
              else ''None'')"

text \<open>
  One row of a classified frame. The yearly, weekly and daily frames differ only in the
  names of their three label columns (\<^verbatim>\<open>Macro\<close>, \<^verbatim>\<open>WeeklyMacro\<close>, \<^verbatim>\<open>DailyMacro\<close>, ...).
  A row the loop fills with seven NaN is \<open>None\<close>.
\<close>

record regime_row =
  Macro :: string
  Micro :: string
  Transition :: string
  RClose :: real
  Hi :: real
  Lo :: real
  Mid :: real

type_synonym regime_frame = "(timestamp \<times> regime_row option) list"

text \<open>
  The body of the loop of \<^verbatim>\<open>classify_regime\<close> and \<^verbatim>\<open>classify_weekly_regime\<close> at row \<open>i\<close>:
  \<open>hi\<close> and \<open>lo\<close> are the rolling series, \<open>mid = (hi + lo) / 2\<close> is computed row by row.
\<close>

definition regime_row_at ::
  "bar list \<Rightarrow> cell list \<Rightarrow> cell list \<Rightarrow> real list \<Rightarrow> nat \<Rightarrow> regime_row option" where
  "regime_row_at bs hi lo atr_val i =
     (case (hi ! i, lo ! i) of
        (Some h, Some l) \<Rightarrow>
          let mid = (h + l) / 2;
              close = Close (bs ! i);
              macro = classify_macro close h l mid;
              micro = classify_micro (take (Suc i) bs) FAST_LEN SLOW_LEN macro;
              trans = classify_transition close h l mid (atr_val ! i) NEAR_THRESH_ATR
          in Some \<lparr>Macro = macro, Micro = micro, Transition = trans,
                   RClose = close, Hi = h, Lo = l, Mid = mid\<rparr>
      | _ \<Rightarrow> None)"

definition classify_regime :: "frame \<Rightarrow> nat \<Rightarrow> regime_frame" where
  "classify_regime df atr_len =
     (if df = [] then []
      else let bs = map snd df;
               hi = rolling_max YEARLY_RANGE_DAYS (map High bs);
               lo = rolling_min YEARLY_RANGE_DAYS (map Low bs);
               atr_val = atr bs atr_len
           in map (\<lambda>i. (fst (df ! i), regime_row_at bs hi lo atr_val i)) [0..<length df])"

definition classify_weekly_regime :: "frame \<Rightarrow> nat \<Rightarrow> regime_frame" where
  "classify_weekly_regime df atr_len =
     (if df = [] then []
      else let bs = map snd df;
               hi = rolling_max 5 (map High bs);
               lo = rolling_min 5 (map Low bs);
               atr_val = atr bs atr_len
           in map (\<lambda>i. (fst (df ! i), regime_row_at bs hi lo atr_val i)) [0..<length df])"

text \<open>
  \<^verbatim>\<open>classify_daily_regime\<close> has no NaN test in its loop; with a window of one bar the
  rolling series are never NaN (lemma \<open>daily_never_nan\<close> below), so the same row function
  describes it.
\<close>

definition classify_daily_regime :: "frame \<Rightarrow> nat \<Rightarrow> regime_frame" where
  "classify_daily_regime df atr_len =
     (if df = [] then []
      else let bs = map snd df;
               hi = rolling_max 1 (map High bs);
               lo = rolling_min 1 (map Low bs);
               atr_val = atr bs atr_len
           in map (\<lambda>i. (fst (df ! i), regime_row_at bs hi lo atr_val i)) [0..<length df])"

section \<open>Session-specific regimes\<close>

text \<open>
  The index of an intraday frame, after \<^verbatim>\<open>tz_convert(tz)\<close>, is read as minutes of local
  wall-clock time counted from midnight of day 0. \<^verbatim>\<open>strftime("%H:%M")\<close> prints the hour and
  the minute of the day with two digits each.
\<close>

definition day_of :: "timestamp \<Rightarrow> int" where
  "day_of t = t div 1440"

definition two_digits :: "nat \<Rightarrow> string" where
  "two_digits n = [''0123456789'' ! ((n div 10) mod 10), ''0123456789'' ! (n mod 10)]"

definition strftime_HM :: "timestamp \<Rightarrow> string" where
  "strftime_HM t =
     two_digits (nat ((t mod 1440) div 60)) @ '':'' @ two_digits (nat (t mod 60))"

text \<open>Python's order on strings: lexicographic, by code point.\<close>

fun str_less :: "string \<Rightarrow> string \<Rightarrow> bool" where
  "str_less [] [] = False"
| "str_less [] (y # ys) = True"
| "str_less (x # xs) [] = False"
| "str_less (x # xs) (y # ys) =
     ((of_char x :: nat) < of_char y \<or> (x = y \<and> str_less xs ys))"

definition str_ge :: "string \<Rightarrow> string \<Rightarrow> bool" where
  "str_ge a b = (\<not> str_less a b)"

text \<open>The four session windows, in the order of the dict.\<close>

definition sessions :: "(string \<times> string \<times> string) list" where
  "sessions =
     [(''Asia'', ''04:00'', ''05:00''),
      (''London'', ''09:00'', ''10:00''),
      (''NY AM'', ''12:00'', ''13:00''),
      (''NY PM'', ''13:00'', ''14:00'')]"

record session_row = regime_row +
  Session :: string

text \<open>
  \<^verbatim>\<open>mask = (strftime("%H:%M") >= start) & (strftime("%H:%M") < end)\<close> and
  \<^verbatim>\<open>sess_df = df.loc[mask]\<close>: the rows of the whole frame whose time of day lies in the window.
\<close>

definition session_mask :: "string \<Rightarrow> string \<Rightarrow> timestamp \<Rightarrow> bool" where
  "session_mask start stop t = (str_ge (strftime_HM t) start \<and> str_less (strftime_HM t) stop)"

definition sess_df :: "string \<Rightarrow> string \<Rightarrow> frame \<Rightarrow> frame" where
  "sess_df start stop df = filter (\<lambda>(t, b). session_mask start stop t) df"

text \<open>
  \<^verbatim>\<open>classify_session_regimes(df, fast_len, slow_len, atr_len, near_thresh_atr, tz)\<close>.
  \<open>freq\<close> is the value of \<^verbatim>\<open>pd.infer_freq(df.index)\<close>, a frequency label or \<open>None\<close>. The
  label is an input of the model, which describes the calls in which \<^verbatim>\<open>infer_freq\<close> returns
  (pandas raises ValueError on an index of fewer than three timestamps); pandas anchors the
  labels of weekly, quarterly and annual indexes (W-MON, Q-DEC, A-DEC) and names a
  month-start index MS. The result is the list of the rows of the output frame.
\<close>

definition daily_or_coarser :: "string option set" where
  "daily_or_coarser = {Some ''B'', Some ''D'', Some ''W'', Some ''M'', Some ''Q'', Some ''A'', None}"

definition session_snapshot :: "frame \<Rightarrow> real list \<Rightarrow> nat \<Rightarrow> nat \<Rightarrow> real \<Rightarrow>
    string \<times> string \<times> string \<Rightarrow> session_row list" where
  "session_snapshot df atr_col fast_len slow_len near_thresh_atr s =
     (case s of (session_name, start, stop) \<Rightarrow>
        let sd = sess_df start stop df
        in if sd = [] then []
           else let hi = max_of (map (High \<circ> snd) sd);
                    lo = min_of (map (Low \<circ> snd) sd);
                    mid = (hi + lo) / 2;
                    close = Close (snd (last sd));
                    macro = classify_macro close hi lo mid;
                    micro = classify_micro (map snd sd) fast_len slow_len macro;
                    trans = classify_transition close hi lo mid (last atr_col) near_thresh_atr
                in [\<lparr>Macro = macro, Micro = micro, Transition = trans, RClose = close,
                     Hi = hi, Lo = lo, Mid = mid, Session = session_name\<rparr>])"

definition classify_session_regimes ::
  "string option \<Rightarrow> frame \<Rightarrow> nat \<Rightarrow> nat \<Rightarrow> nat \<Rightarrow> real \<Rightarrow> session_row list" where
  "classify_session_regimes freq df fast_len slow_len atr_len near_thresh_atr =
     (if df = [] then []
      else if freq \<in> daily_or_coarser then []
      else let atr_col = atr (map snd df) atr_len
           in concat (map (session_snapshot df atr_col fast_len slow_len near_thresh_atr) sessions))"

section \<open>Auxiliary definitions for the statements\<close>

text \<open>
  The three per-bar classifiers run the same loop with a window of 28, 5 and 1 bars;
  \<open>regime_loop\<close> is that loop with the window as a parameter (lemmas \<open>classify_regime_loop\<close>,
  \<open>classify_weekly_loop\<close>, \<open>classify_daily_loop\<close>).
\<close>

definition regime_loop :: "nat \<Rightarrow> frame \<Rightarrow> nat \<Rightarrow> regime_frame" where
  "regime_loop n df atr_len =
     map (\<lambda>i. (fst (df ! i),
                regime_row_at (map snd df) (rolling_max n (map High (map snd df)))
                  (rolling_min n (map Low (map snd df))) (atr (map snd df) atr_len) i))
         [0..<length df]"

text \<open>The classified bars of a frame: its rows that carry labels, in order.\<close>

definition classified :: "regime_frame \<Rightarrow> (timestamp \<times> regime_row) list" where
  "classified fr = concat (map (\<lambda>(t, r). case r of None \<Rightarrow> [] | Some row \<Rightarrow> [(t, row)]) fr)"

text \<open>
  The simple moving average of the specification: the mean of the \<open>n\<close> closes up to and
  including bar \<open>i\<close>, undefined (NaN) while fewer than \<open>n\<close> bars exist.
\<close>

definition sma :: "nat \<Rightarrow> real list \<Rightarrow> nat \<Rightarrow> cell" where
  "sma n closes i =
     (if Suc i < n then None else Some ((\<Sum>k\<leftarrow>[Suc i - n..<Suc i]. closes ! k) / real n))"

text \<open>
  The scenario of the specification: 29 bars with highs \<open>10, ..., 10, 12\<close> and lows \<open>8\<close>,
  the last bar closing at \<open>c\<close>.
\<close>

definition spec_scenario :: "real \<Rightarrow> frame" where
  "spec_scenario c =
     map (\<lambda>i. (int i, \<lparr>Open = 9, High = (if i = 28 then 12 else 10), Low = 8,
                         Close = (if i = 28 then c else 9)\<rparr>)) [0..<29]"

text \<open>A flat six-bar frame: too short for the yearly window, long enough for the weekly one.\<close>

definition short_frame :: frame where
  "short_frame = map (\<lambda>i. (int i, \<lparr>Open = 9, High = 10, Low = 8, Close = 9\<rparr>)) [0..<6]"

text \<open>A rising twelve-bar frame: bar \<open>i\<close> spans \<open>8 + i\<close> to \<open>10 + i\<close> and closes at \<open>9.5 + i\<close>.\<close>

definition demo_frame :: frame where
  "demo_frame =
     map (\<lambda>i. (int i, \<lparr>Open = 9 + real i, High = 10 + real i, Low = 8 + real i,
                         Close = 19 / 2 + real i\<rparr>)) [0..<12]"

text \<open>The row of four ones, and the rows without a zero cell.\<close>

definition ones :: bar where
  "ones = \<lparr>Open = 1, High = 1, Low = 1, Close = 1\<rparr>"

definition nonzero :: "bar \<Rightarrow> bool" where
  "nonzero b = (Open b \<noteq> 0 \<and> High b \<noteq> 0 \<and> Low b \<noteq> 0 \<and> Close b \<noteq> 0)"

text \<open>
  The reading of the specification: one snapshot per session window and per day on which
  the window holds a bar, with the maximum high and minimum low of that day's window.
\<close>

definition spec_day_snapshots :: "frame \<Rightarrow> (string \<times> int \<times> real \<times> real) list" where
  "spec_day_snapshots df =
     concat (map (\<lambda>(session_name, start, stop).
                    map (\<lambda>d. let w = filter (\<lambda>(t, b). day_of t = d) (sess_df start stop df)
                              in (session_name, d, max_of (map (High \<circ> snd) w), min_of (map (Low \<circ> snd) w)))
                        (remdups (map (day_of \<circ> fst) (sess_df start stop df))))
                 sessions)"

text \<open>
  A regular twelve-hourly frame of four bars, at 09:00 and 21:00 of day 0 and of day 1;
  the first bar reaches 20, every other bar 10.
\<close>

definition half_day_frame :: frame where
  "half_day_frame =
     [(540, \<lparr>Open = 9, High = 20, Low = 8, Close = 9\<rparr>),
      (1260, \<lparr>Open = 9, High = 10, Low = 8, Close = 9\<rparr>),
      (1980, \<lparr>Open = 9, High = 10, Low = 8, Close = 9\<rparr>),
      (2700, \<lparr>Open = 9, High = 10, Low = 8, Close = 9\<rparr>)]"

text \<open>
  A weekly frame of four bars, each stamped 09:00 local time, seven days apart; for such an
  index \<^verbatim>\<open>pd.infer_freq\<close> gives the anchored label W-MON when the days are Mondays.
\<close>

definition weekly_frame :: frame where
  "weekly_frame =
     [(540, \<lparr>Open = 9, High = 10, Low = 8, Close = 19 / 2\<rparr>),
      (10620, \<lparr>Open = 9, High = 10, Low = 8, Close = 19 / 2\<rparr>),
      (20700, \<lparr>Open = 9, High = 10, Low = 8, Close = 19 / 2\<rparr>),
      (30780, \<lparr>Open = 9, High = 10, Low = 8, Close = 19 / 2\<rparr>)]"

text \<open>
  What the snapshot of a session is: its numbers are taken over every bar of the frame
  whose time of day lies in the window, whatever the day.
\<close>

definition snapshot_of :: "frame \<Rightarrow> string \<times> string \<times> string \<Rightarrow> session_row \<Rightarrow> bool" where
  "snapshot_of df s r =
     (case s of (session_name, start, stop) \<Rightarrow>
        Session r = session_name \<and>
        Hi r = max_of (map (High \<circ> snd) (sess_df start stop df)) \<and>
        Lo r = min_of (map (Low \<circ> snd) (sess_df start stop df)) \<and>
        Mid r = (Hi r + Lo r) / 2 \<and>
        RClose r = Close (snd (last (sess_df start stop df))) \<and>
        Macro r = classify_macro (RClose r) (Hi r) (Lo r) (Mid r) \<and>
        list_all (\<lambda>(t, b). session_mask start stop t \<longrightarrow> Lo r \<le> Low b \<and> High b \<le> Hi r) df)"

text \<open>The \<^verbatim>\<open>members\<close> dict of \<^verbatim>\<open>ew_index_from_members\<close>: the non-empty member frames.\<close>

definition members_of :: "(string \<times> frame) list \<Rightarrow> (string \<times> frame) list" where
  "members_of ohlc_members = filter (\<lambda>(k, v). v \<noteq> []) ohlc_members"

text \<open>The row of a frame at a label, \<^verbatim>\<open>df.loc[t]\<close>, for a label of its index.\<close>

definition row_at :: "frame \<Rightarrow> timestamp \<Rightarrow> bar" where
  "row_at df t = the (map_of df t)"

text \<open>
  The equal-weight bar of the specification on an aligned timestamp: every member is
  scaled by \<open>base / first_close\<close>, its first close being the one on the first common
  timestamp (scale 1 when that close is zero), and each field is the arithmetic mean of the
  members' scaled values.
\<close>

definition spec_scale :: "timestamp list \<Rightarrow> real \<Rightarrow> frame \<Rightarrow> real" where
  "spec_scale common base df =
     (let first_close = Close (row_at df (hd common))
      in if first_close \<noteq> 0 then base / first_close else 1)"

definition spec_ew_bar :: "frame list \<Rightarrow> timestamp list \<Rightarrow> real \<Rightarrow> timestamp \<Rightarrow> bar" where
  "spec_ew_bar members common base t =
     \<lparr>Open = mean (map (\<lambda>df. Open (row_at df t) * spec_scale common base df) members),
      High = mean (map (\<lambda>df. High (row_at df t) * spec_scale common base df) members),
      Low = mean (map (\<lambda>df. Low (row_at df t) * spec_scale common base df) members),
      Close = mean (map (\<lambda>df. Close (row_at df t) * spec_scale common base df) members)\<rparr>"

text \<open>Two members that share the timestamp 2, and an empty one.\<close>

definition overlap_members :: "(string \<times> frame) list" where
  "overlap_members =
     [(''A'', [(1, \<lparr>Open = 1, High = 1, Low = 1, Close = 1\<rparr>),
               (2, \<lparr>Open = 2, High = 4, Low = 1, Close = 2\<rparr>)]),
      (''E'', []),
      (''B'', [(2, \<lparr>Open = 4, High = 4, Low = 4, Close = 4\<rparr>),
               (3, \<lparr>Open = 5, High = 5, Low = 5, Close = 5\<rparr>)])]"

text \<open>Two members without a common timestamp.\<close>

definition disjoint_members :: "(string \<times> frame) list" where
  "disjoint_members =
     [(''A'', [(1, \<lparr>Open = 1, High = 1, Low = 1, Close = 1\<rparr>)]),
      (''B'', [(2, \<lparr>Open = 2, High = 2, Low = 2, Close = 2\<rparr>)])]"

text \<open>
  The geometric mean of the specification: the exponential of the arithmetic mean of the
  natural logarithms of the members' values of one field on one bar.
\<close>

definition positive :: "bar \<Rightarrow> bool" where
  "positive b = (0 < Open b \<and> 0 < High b \<and> 0 < Low b \<and> 0 < Close b)"

definition spec_geo_mean :: "real list \<Rightarrow> real" where
  "spec_geo_mean vs = exp (mean (map ln vs))"

definition spec_geo_bar :: "frame list \<Rightarrow> timestamp \<Rightarrow> bar" where
  "spec_geo_bar members t =
     \<lparr>Open = spec_geo_mean (map (\<lambda>df. Open (row_at df t)) members),
      High = spec_geo_mean (map (\<lambda>df. High (row_at df t)) members),
      Low = spec_geo_mean (map (\<lambda>df. Low (row_at df t)) members),
      Close = spec_geo_mean (map (\<lambda>df. Close (row_at df t)) members)\<rparr>"

text \<open>A provider with two indices on one common bar, every value being 1.\<close>

definition unit_fetch :: "string \<Rightarrow> frame" where
  "unit_fetch t =
     (if t = ''^IXIC'' \<or> t = ''SPY'' then [(1, \<lparr>Open = 1, High = 1, Low = 1, Close = 1\<rparr>)]
      else [])"

text \<open>A provider with two indices on one common bar; one of them opens at zero.\<close>

definition zero_open_fetch :: "string \<Rightarrow> frame" where
  "zero_open_fetch t =
     (if t = ''^IXIC'' then [(1, \<lparr>Open = 0, High = 1, Low = 1, Close = 1\<rparr>)]
      else if t = ''^GSPC'' then [(1, \<lparr>Open = 1, High = 1, Low = 1, Close = 1\<rparr>)]
      else [])"

section \<open>Properties of the per-bar classifiers\<close>

lemma classify_regime_loop: "classify_regime df al = regime_loop YEARLY_RANGE_DAYS df al"
  by (simp add: classify_regime_def regime_loop_def Let_def)

lemma classify_weekly_loop: "classify_weekly_regime df al = regime_loop 5 df al"
  by (simp add: classify_weekly_regime_def regime_loop_def Let_def)

lemma classify_daily_loop: "classify_daily_regime df al = regime_loop 1 df al"
  by (simp add: classify_daily_regime_def regime_loop_def Let_def)

lemma length_regime_loop [simp]: "length (regime_loop n df al) = length df"
  by (simp add: regime_loop_def)

lemma nth_rolling_max:
  "i < length xs \<Longrightarrow>
   rolling_max n xs ! i = (if Suc i < n then None else Some (max_of (window n xs i)))"
  by (simp add: rolling_max_def)

lemma nth_rolling_min:
  "i < length xs \<Longrightarrow>
   rolling_min n xs ! i = (if Suc i < n then None else Some (min_of (window n xs i)))"
  by (simp add: rolling_min_def)

lemma window_one: "i < length xs \<Longrightarrow> window (Suc 0) xs i = [xs ! i]"
  by (simp add: window_def take_Suc_conv_app_nth)

lemma daily_never_nan:
  "i < length xs \<Longrightarrow> rolling_max 1 xs ! i = Some (xs ! i) \<and> rolling_min 1 xs ! i = Some (xs ! i)"
  by (simp add: nth_rolling_max nth_rolling_min window_one)

lemma nth_regime_loop:
  assumes "i < length df"
  shows "regime_loop n df al ! i =
     (fst (df ! i),
      if Suc i < n then None
      else let h = max_of (window n (map (High \<circ> snd) df) i);
               l = min_of (window n (map (Low \<circ> snd) df) i);
               mid = (h + l) / 2;
               close = Close (snd (df ! i));
               macro = classify_macro close h l mid
           in Some \<lparr>Macro = macro,
                    Micro = classify_micro (take (Suc i) (map snd df)) FAST_LEN SLOW_LEN macro,
                    Transition = classify_transition close h l mid (atr (map snd df) al ! i)
                                   NEAR_THRESH_ATR,
                    RClose = close, Hi = h, Lo = l, Mid = mid\<rparr>)"
  using assms
  by (simp add: regime_loop_def regime_row_at_def nth_rolling_max nth_rolling_min Let_def)

lemma regime_loop_None_iff:
  "i < length df \<Longrightarrow> (snd (regime_loop n df al ! i) = None) = (Suc i < n)"
  by (simp add: nth_regime_loop Let_def)

lemma sum_list_drop_nth:
  "sum_list (drop k xs) = (\<Sum>j\<leftarrow>[k..<length xs]. (xs::real list) ! j)"
proof -
  have "drop k xs = drop k (map ((!) xs) [0..<length xs])"
    by (simp only: map_nth)
  also have "\<dots> = map ((!) xs) [k..<length xs]"
    by (simp only: drop_map drop_upt add_0)
  finally show ?thesis by (rule arg_cong)
qed

lemma window_take: "window n (take (Suc i) xs) i = window n xs i"
  by (simp add: window_def)

lemma mean_window_full:
  assumes "length ys = Suc i" "\<not> Suc i < n"
  shows "mean (window n ys i) = (\<Sum>k\<leftarrow>[Suc i - n..<Suc i]. ys ! k) / real n"
proof -
  have w: "window n ys i = drop (Suc i - n) ys"
    using assms by (simp add: window_def)
  have "sum_list (drop (Suc i - n) ys) = (\<Sum>j\<leftarrow>[Suc i - n..<length ys]. ys ! j)"
    by (rule sum_list_drop_nth)
  then have s: "sum_list (window n ys i) = (\<Sum>j\<leftarrow>[Suc i - n..<Suc i]. ys ! j)"
    unfolding w assms(1) .
  have "length (window n ys i) = n"
    unfolding w using assms by simp
  with s show ?thesis unfolding mean_def by simp
qed

lemma mean_window_sma:
  assumes "i < length xs" "\<not> Suc i < n"
  shows "mean (window n xs i) = (\<Sum>k\<leftarrow>[Suc i - n..<Suc i]. xs ! k) / real n"
proof -
  let ?ys = "take (Suc i) xs"
  have len: "length ?ys = Suc i" using assms by simp
  have "map (\<lambda>k. ?ys ! k) [Suc i - n..<Suc i] = map (\<lambda>k. xs ! k) [Suc i - n..<Suc i]"
    by (rule map_cong [OF refl]) (simp del: upt_Suc)
  then show ?thesis
    using mean_window_full [OF len assms(2)] unfolding window_take by (simp only:)
qed

lemma last_rolling_mean:
  assumes "i < length xs"
  shows "last_cell (rolling_mean n (take (Suc i) xs)) = sma n xs i"
proof -
  let ?ys = "take (Suc i) xs"
  let ?f = "\<lambda>j. if Suc j < n then None else Some (mean (window n ?ys j))"
  have len: "length ?ys = Suc i" using assms by simp
  have rm: "rolling_mean n ?ys = map ?f [0..<i] @ [?f i]"
    unfolding rolling_mean_def len by simp
  have "last_cell (rolling_mean n ?ys) = ?f i"
    unfolding rm last_cell_def by simp
  also have "\<dots> = sma n xs i"
    unfolding window_take sma_def using mean_window_sma [OF assms] by simp
  finally show ?thesis .
qed

lemma classify_macro_labels:
  "classify_macro c h l m \<in> {''Strong Bull'', ''Weak Bull'', ''Strong Bear'', ''Weak Bear'', ''Neutral''}"
  by (simp add: classify_macro_def)

lemma str_in_labels:
  "str_in ''Bull'' ''Strong Bull''" "str_in ''Bull'' ''Weak Bull''"
  "\<not> str_in ''Bull'' ''Strong Bear''" "\<not> str_in ''Bull'' ''Weak Bear''"
  "\<not> str_in ''Bull'' ''Neutral''"
  "str_in ''Bear'' ''Strong Bear''" "str_in ''Bear'' ''Weak Bear''"
  "\<not> str_in ''Bear'' ''Neutral''"
  by simp_all

lemma micro_of_label:
  assumes "macro \<in> {''Strong Bull'', ''Weak Bull'', ''Strong Bear'', ''Weak Bear'', ''Neutral''}"
  shows "classify_micro d f s macro =
     (let fast_ma = last_cell (rolling_mean f (map Close d));
          slow_ma = last_cell (rolling_mean s (map Close d))
      in if macro \<in> {''Strong Bull'', ''Weak Bull''} then
           (if nan_gt fast_ma slow_ma then ''Micro Bull+'' else ''Micro Bear'')
         else if macro \<in> {''Strong Bear'', ''Weak Bear''} then
           (if nan_lt fast_ma slow_ma then ''Micro Bear'' else ''Micro Bull'')
         else ''Neutral'')"
proof -
  from assms have "macro = ''Strong Bull'' \<or> macro = ''Weak Bull'' \<or> macro = ''Strong Bear'' \<or>
      macro = ''Weak Bear'' \<or> macro = ''Neutral''"
    by simp
  then show ?thesis
    unfolding classify_micro_def Let_def by (elim disjE) (simp_all add: str_in_labels)
qed

lemma regime_loop_row:
  assumes "i < length df" and "snd (regime_loop n df al ! i) = Some r"
  shows "\<not> Suc i < n"
    and "Hi r = max_of (window n (map (High \<circ> snd) df) i)"
    and "Lo r = min_of (window n (map (Low \<circ> snd) df) i)"
    and "Mid r = (Hi r + Lo r) / 2"
    and "RClose r = Close (snd (df ! i))"
    and "Macro r = classify_macro (RClose r) (Hi r) (Lo r) (Mid r)"
    and "Micro r = classify_micro (take (Suc i) (map snd df)) FAST_LEN SLOW_LEN (Macro r)"
    and "Transition r = classify_transition (RClose r) (Hi r) (Lo r) (Mid r)
                          (atr (map snd df) al ! i) NEAR_THRESH_ATR"
  using assms by (auto simp: nth_regime_loop Let_def split: if_splits)

lemma length_classified_upto:
  assumes "\<And>i. i < N \<Longrightarrow> (snd (F i) = None) = (Suc i < n)"
  shows "length (classified (map F [0..<N])) = N - (n - 1)"
  using assms
proof (induction N)
  case 0
  then show ?case by (simp add: classified_def)
next
  case (Suc N)
  have ih: "length (classified (map F [0..<N])) = N - (n - 1)"
    using Suc by simp
  have last: "length (classified [F N]) = (if Suc N < n then 0 else 1)"
    using Suc.prems [of N] by (cases "F N") (auto simp: classified_def split: option.splits)
  have "classified (map F [0..<Suc N]) = classified (map F [0..<N]) @ classified [F N]"
    by (simp add: classified_def)
  then show ?case using ih last by auto
qed

lemma length_classified_loop:
  "length (classified (regime_loop n df al)) = length df - (n - 1)"
proof -
  let ?F = "\<lambda>i. regime_loop n df al ! i"
  have "regime_loop n df al = map ?F [0..<length (regime_loop n df al)]"
    by (simp only: map_nth)
  then have eq: "regime_loop n df al = map ?F [0..<length df]" by simp
  have "length (classified (map ?F [0..<length df])) = length df - (n - 1)"
    by (rule length_classified_upto) (simp add: regime_loop_None_iff)
  then show ?thesis using eq by simp
qed

lemma classified_all_None:
  assumes "\<forall>i<length fr. snd (fr ! i) = None"
  shows "classified fr = []"
proof -
  have "\<forall>x\<in>set fr. snd x = None"
    using assms by (metis in_set_conv_nth)
  then show ?thesis by (auto simp: classified_def)
qed

lemma regime_frames_cases:
  assumes "fr \<in> {classify_regime df al, classify_weekly_regime df al, classify_daily_regime df al}"
  obtains n where "fr = regime_loop n df al" and "n \<in> {YEARLY_RANGE_DAYS, 5, 1}"
  using assms classify_regime_loop classify_weekly_loop classify_daily_loop by blast

lemma micro_row_sma:
  assumes "i < length df" and "snd (regime_loop n df al ! i) = Some r"
  shows "Macro r \<in> {''Strong Bull'', ''Weak Bull'', ''Strong Bear'', ''Weak Bear'', ''Neutral''}"
    and "Micro r =
           (if Macro r \<in> {''Strong Bull'', ''Weak Bull''} then
              (if nan_gt (sma 5 (map (Close \<circ> snd) df) i) (sma 10 (map (Close \<circ> snd) df) i)
               then ''Micro Bull+'' else ''Micro Bear'')
            else if Macro r \<in> {''Strong Bear'', ''Weak Bear''} then
              (if nan_lt (sma 5 (map (Close \<circ> snd) df) i) (sma 10 (map (Close \<circ> snd) df) i)
               then ''Micro Bear'' else ''Micro Bull'')
            else ''Neutral'')"
proof -
  note row = regime_loop_row [OF assms]
  show lab: "Macro r \<in> {''Strong Bull'', ''Weak Bull'', ''Strong Bear'', ''Weak Bear'', ''Neutral''}"
    unfolding row(6) by (rule classify_macro_labels)
  have tk: "map Close (take (Suc i) (map snd df)) = take (Suc i) (map (Close \<circ> snd) df)"
    by (simp add: take_map)
  have i': "i < length (map (Close \<circ> snd) df)" using assms(1) by simp
  have "Micro r = classify_micro (take (Suc i) (map snd df)) FAST_LEN SLOW_LEN (Macro r)"
    by (rule row(7))
  also note micro_of_label [OF lab]
  finally show "Micro r =
           (if Macro r \<in> {''Strong Bull'', ''Weak Bull''} then
              (if nan_gt (sma 5 (map (Close \<circ> snd) df) i) (sma 10 (map (Close \<circ> snd) df) i)
               then ''Micro Bull+'' else ''Micro Bear'')
            else if Macro r \<in> {''Strong Bear'', ''Weak Bear''} then
              (if nan_lt (sma 5 (map (Close \<circ> snd) df) i) (sma 10 (map (Close \<circ> snd) df) i)
               then ''Micro Bear'' else ''Micro Bull'')
            else ''Neutral'')"
    unfolding tk last_rolling_mean [OF i'] FAST_LEN_def SLOW_LEN_def Let_def .
qed

lemma classify_micro_short:
  assumes "length d < slow_len"
  shows "classify_micro d fast_len slow_len macro =
           (if str_in ''Bull'' macro then ''Micro Bear''
            else if str_in ''Bear'' macro then ''Micro Bull'' else ''Neutral'')"
proof -
  have "last_cell (rolling_mean slow_len (map Close d)) = None"
  proof (cases "d = []")
    case True
    then show ?thesis by (simp add: rolling_mean_def last_cell_def)
  next
    case False
    then obtain k where k: "length d = Suc k" by (cases d) auto
    have "rolling_mean slow_len (map Close d) =
            map (\<lambda>i. if Suc i < slow_len then None else Some (mean (window slow_len (map Close d) i))) [0..<k]
            @ [None]"
      using assms by (simp add: rolling_mean_def k)
    then show ?thesis by (simp add: last_cell_def)
  qed
  then show ?thesis
    by (simp add: classify_micro_def Let_def nan_gt_def nan_lt_def split: option.splits)
qed

text \<open>
  Claim C1. On every bar that \<^verbatim>\<open>classify_regime\<close> classifies, hi and lo are the maximum high
  and minimum low of the trailing 28-bar window, mid is their average, and the macro label
  is decided from the close in the fixed order Strong Bull, Weak Bull, Strong Bear,
  Weak Bear, Neutral; a close equal to mid is Neutral. In the 29-bar scenario the last bar
  has hi 12, lo 8, mid 10 and is Weak Bull with close 12 and Strong Bull with close 12.5.
\<close>

theorem macro_label_order:
  assumes "i < length df" and "snd (classify_regime df al ! i) = Some r"
  shows "Hi r = max_of (window YEARLY_RANGE_DAYS (map (High \<circ> snd) df) i) \<and>
         Lo r = min_of (window YEARLY_RANGE_DAYS (map (Low \<circ> snd) df) i) \<and>
         Mid r = (Hi r + Lo r) / 2 \<and>
         RClose r = Close (snd (df ! i)) \<and>
         Macro r = (if RClose r > Mid r \<and> RClose r > Hi r then ''Strong Bull''
                    else if RClose r > Mid r then ''Weak Bull''
                    else if RClose r < Mid r \<and> RClose r < Lo r then ''Strong Bear''
                    else if RClose r < Mid r then ''Weak Bear''
                    else ''Neutral'') \<and>
         (RClose r = Mid r \<longrightarrow> Macro r = ''Neutral'') \<and>
         map_option (\<lambda>r. (Hi r, Lo r, Mid r, Macro r))
           (snd (classify_regime (spec_scenario 12) ATR_PERIOD ! 28)) =
           Some (12, 8, 10, ''Weak Bull'') \<and>
         map_option (\<lambda>r. (Hi r, Lo r, Mid r, Macro r))
           (snd (classify_regime (spec_scenario (25 / 2)) ATR_PERIOD ! 28)) =
           Some (12, 8, 10, ''Strong Bull'')"
proof -
  note row = regime_loop_row [OF assms(1) assms(2) [unfolded classify_regime_loop]]
  have m: "Macro r = classify_macro (RClose r) (Hi r) (Lo r) (Mid r)" by (rule row(6))
  have s1: "map_option (\<lambda>r. (Hi r, Lo r, Mid r, Macro r))
           (snd (classify_regime (spec_scenario 12) ATR_PERIOD ! 28)) =
           Some (12, 8, 10, ''Weak Bull'')" by code_simp
  have s2: "map_option (\<lambda>r. (Hi r, Lo r, Mid r, Macro r))
           (snd (classify_regime (spec_scenario (25 / 2)) ATR_PERIOD ! 28)) =
           Some (12, 8, 10, ''Strong Bull'')" by code_simp
  show ?thesis
    using row(2-5) s1 s2 by (simp add: m classify_macro_def)
qed

theorem macro_label_order_witness:
  "28 < length (spec_scenario 12) \<and>
   (\<exists>r. snd (classify_regime (spec_scenario 12) ATR_PERIOD ! 28) = Some r \<and>
        Mid r = (Hi r + Lo r) / 2 \<and> RClose r = 12 \<and>
        Macro r = (if RClose r > Mid r \<and> RClose r > Hi r then ''Strong Bull''
                    else if RClose r > Mid r then ''Weak Bull''
                    else if RClose r < Mid r \<and> RClose r < Lo r then ''Strong Bear''
                    else if RClose r < Mid r then ''Weak Bear''
                    else ''Neutral''))"
proof -
  have len: "28 < length (spec_scenario 12)" by code_simp
  have "snd (classify_regime (spec_scenario 12) ATR_PERIOD ! 28) \<noteq> None" by code_simp
  then obtain r where r: "snd (classify_regime (spec_scenario 12) ATR_PERIOD ! 28) = Some r"
    by blast
  have c: "Close (snd (spec_scenario 12 ! 28)) = 12" by code_simp
  show ?thesis
    using macro_label_order [OF len r] len r c by simp
qed

text \<open>
  Claim C2. The yearly and weekly frames keep one row per input bar; the row is the
  all-NaN row (no labels, no numbers) exactly on the bars before the 28-bar, respectively
  5-bar, window is full, and a labelled row from then on. A series shorter than the window
  therefore has no classified bar in that timeframe, while the other timeframes classify
  their own \<open>length - 4\<close> (weekly) and \<open>length\<close> (daily) bars whatever the yearly result.
\<close>

theorem insufficient_history_unclassified:
  "length (classify_regime df al) = length df \<and>
   length (classify_weekly_regime df al) = length df \<and>
   map fst (classify_regime df al) = map fst df \<and>
   map fst (classify_weekly_regime df al) = map fst df \<and>
   (\<forall>i<length df. (snd (classify_regime df al ! i) = None) = (Suc i < 28)) \<and>
   (\<forall>i<length df. (snd (classify_weekly_regime df al ! i) = None) = (Suc i < 5)) \<and>
   (length df < 28 \<longrightarrow> classified (classify_regime df al) = []) \<and>
   (length df < 5 \<longrightarrow> classified (classify_weekly_regime df al) = []) \<and>
   length (classified (classify_regime df al)) = length df - 27 \<and>
   length (classified (classify_weekly_regime df al)) = length df - 4 \<and>
   length (classified (classify_daily_regime df al)) = length df"
proof -
  have fst_loop: "map fst (regime_loop n df al) = map fst df" for n
    by (rule nth_equalityI) (simp_all add: nth_regime_loop)
  have none: "\<forall>i<length df. (snd (regime_loop n df al ! i) = None) = (Suc i < n)" for n
    by (simp add: regime_loop_None_iff)
  have empty: "classified (regime_loop n df al) = []" if "length df < n" for n
    by (rule classified_all_None) (use that in \<open>simp add: regime_loop_None_iff\<close>)
  show ?thesis
    unfolding classify_regime_loop classify_weekly_loop classify_daily_loop
    using fst_loop none [of YEARLY_RANGE_DAYS] none [of 5] empty [of YEARLY_RANGE_DAYS] empty [of 5]
    by (simp add: length_classified_loop YEARLY_RANGE_DAYS_def)
qed

theorem insufficient_history_unclassified_witness:
  "length short_frame < 28 \<and> \<not> length short_frame < 5 \<and>
   classified (classify_regime short_frame ATR_PERIOD) = [] \<and>
   length (classified (classify_weekly_regime short_frame 14)) = 2 \<and>
   length (classified (classify_daily_regime short_frame 14)) = 6 \<and>
   (snd (classify_weekly_regime short_frame 14 ! 3) = None) \<and>
   (snd (classify_weekly_regime short_frame 14 ! 4) \<noteq> None)"
proof -
  have len: "length short_frame = 6" by (simp add: short_frame_def)
  show ?thesis
    using insufficient_history_unclassified [of short_frame ATR_PERIOD]
      insufficient_history_unclassified [of short_frame 14]
    by (simp add: len)
qed

text \<open>
  Claim C7. On every classified bar the transition label is None when the ATR at that bar
  is not positive; otherwise the four proximity rules are tried in the order Approaching
  Weak Bull, Approaching Strong Bull, Approaching Weak Bear, Approaching Strong Bear on
  \<open>distHi = (hi - close) / atrVal\<close> and \<open>distLo = (close - lo) / atrVal\<close>, the first match
  wins, and the label is None when none matches.
\<close>

theorem transition_priority_order:
  assumes "i < length df"
    and "fr \<in> {classify_regime df al, classify_weekly_regime df al, classify_daily_regime df al}"
    and "snd (fr ! i) = Some r"
  shows "let atrVal = atr (map snd df) al ! i;
             close = RClose r; hi = Hi r; lo = Lo r; mid = Mid r;
             distHi = (hi - close) / atrVal;
             distLo = (close - lo) / atrVal;
             threshold = NEAR_THRESH_ATR
         in Transition r =
             (if atrVal \<le> 0 then ''None''
              else if close < hi \<and> close > mid \<and> distHi < threshold then ''Approaching Weak Bull''
              else if close > hi \<and> distHi < threshold then ''Approaching Strong Bull''
              else if close > lo \<and> close < mid \<and> distLo < threshold then ''Approaching Weak Bear''
              else if close < lo \<and> distLo < threshold then ''Approaching Strong Bear''
              else ''None'')"
proof -
  from assms(2) obtain n where fr: "fr = regime_loop n df al"
    by (rule regime_frames_cases)
  have "Transition r = classify_transition (RClose r) (Hi r) (Lo r) (Mid r)
                          (atr (map snd df) al ! i) NEAR_THRESH_ATR"
    using regime_loop_row(8) [OF assms(1) assms(3) [unfolded fr]] .
  then show ?thesis
    by (simp add: classify_transition_def Let_def)
qed

theorem transition_priority_order_witness:
  "11 < length demo_frame \<and>
   (\<exists>r. snd (classify_daily_regime demo_frame 14 ! 11) = Some r \<and>
        atr (map snd demo_frame) 14 ! 11 = 2 \<and> RClose r = 41 / 2 \<and> Hi r = 21 \<and> Mid r = 20 \<and>
        Transition r = ''Approaching Weak Bull'')"
proof -
  have len: "11 < length demo_frame" by code_simp
  have "snd (classify_daily_regime demo_frame 14 ! 11) \<noteq> None" by code_simp
  then obtain r where r: "snd (classify_daily_regime demo_frame 14 ! 11) = Some r" by blast
  have "map_option (\<lambda>r. (RClose r, Hi r, Lo r, Mid r)) (snd (classify_daily_regime demo_frame 14 ! 11))
        = Some (41 / 2, 21, 19, 20)" by code_simp
  then have v: "RClose r = 41 / 2" "Hi r = 21" "Lo r = 19" "Mid r = 20"
    unfolding r by simp_all
  have a: "atr (map snd demo_frame) 14 ! 11 = 2" by code_simp
  have "classify_daily_regime demo_frame 14 \<in> {classify_regime demo_frame 14,
          classify_weekly_regime demo_frame 14, classify_daily_regime demo_frame 14}" by simp
  from transition_priority_order [OF len this r] show ?thesis
    using len r by (simp add: a v Let_def NEAR_THRESH_ATR_def)
qed

text \<open>
  Claim C8. On every classified bar \<open>i\<close> the micro label follows from the 5-bar and 10-bar
  simple moving averages of the closes up to and including \<open>i\<close>: under a Bull macro label
  it is Micro Bull+ when fast > slow and Micro Bear otherwise, under a Bear macro label it is
  Micro Bear when fast < slow and Micro Bull otherwise, and Neutral under Neutral.
\<close>

theorem micro_from_moving_averages:
  assumes "i < length df"
    and "fr \<in> {classify_regime df al, classify_weekly_regime df al, classify_daily_regime df al}"
    and "snd (fr ! i) = Some r"
  shows "let closes = map (Close \<circ> snd) df;
             fast = sma 5 closes i;
             slow = sma 10 closes i
         in Micro r =
             (if Macro r \<in> {''Strong Bull'', ''Weak Bull''} then
                (if nan_gt fast slow then ''Micro Bull+'' else ''Micro Bear'')
              else if Macro r \<in> {''Strong Bear'', ''Weak Bear''} then
                (if nan_lt fast slow then ''Micro Bear'' else ''Micro Bull'')
              else ''Neutral'') \<and>
            (Macro r \<notin> {''Strong Bull'', ''Weak Bull'', ''Strong Bear'', ''Weak Bear''} \<longrightarrow>
               Macro r = ''Neutral'')"
proof -
  from assms(2) obtain n where fr: "fr = regime_loop n df al"
    by (rule regime_frames_cases)
  note m = micro_row_sma [OF assms(1) assms(3) [unfolded fr]]
  show ?thesis
    unfolding Let_def using m(1) by (subst m(2)) auto
qed

theorem micro_from_moving_averages_witness:
  "11 < length demo_frame \<and>
   (\<exists>r. snd (classify_weekly_regime demo_frame 14 ! 11) = Some r \<and>
        sma 5 (map (Close \<circ> snd) demo_frame) 11 = Some (37 / 2) \<and>
        sma 10 (map (Close \<circ> snd) demo_frame) 11 = Some 16 \<and>
        Macro r = ''Weak Bull'' \<and> Micro r = ''Micro Bull+'')"
proof -
  have len: "11 < length demo_frame" by code_simp
  have "snd (classify_weekly_regime demo_frame 14 ! 11) \<noteq> None" by code_simp
  then obtain r where r: "snd (classify_weekly_regime demo_frame 14 ! 11) = Some r" by blast
  have "map_option Macro (snd (classify_weekly_regime demo_frame 14 ! 11)) = Some ''Weak Bull''"
    by code_simp
  then have v: "Macro r = ''Weak Bull''" unfolding r by simp
  have f: "sma 5 (map (Close \<circ> snd) demo_frame) 11 = Some (37 / 2)" by code_simp
  have s: "sma 10 (map (Close \<circ> snd) demo_frame) 11 = Some 16" by code_simp
  have "classify_weekly_regime demo_frame 14 \<in> {classify_regime demo_frame 14,
          classify_weekly_regime demo_frame 14, classify_daily_regime demo_frame 14}" by simp
  from micro_from_moving_averages [OF len this r] show ?thesis
    using len r by (simp add: f s v Let_def nan_gt_def)
qed

text \<open>
  Claim C10. While fewer than ten bars exist up to and including bar \<open>i\<close>, the slow average
  is NaN, both comparisons are false, and the micro classifier returns Micro Bear under a
  Bull macro label and Micro Bull under a Bear one. The daily classifier labels every bar
  from the first one on, so its early bars carry these labels.
\<close>

theorem early_bars_fallback_micro:
  assumes "i < length df" and "Suc i < SLOW_LEN"
  shows "(\<exists>r. snd (classify_daily_regime df al ! i) = Some r) \<and>
         sma SLOW_LEN (map (Close \<circ> snd) df) i = None \<and>
         (\<forall>fr\<in>{classify_daily_regime df al, classify_weekly_regime df al, classify_regime df al}.
            \<forall>r. snd (fr ! i) = Some r \<longrightarrow>
              (Macro r \<in> {''Strong Bull'', ''Weak Bull''} \<longrightarrow> Micro r = ''Micro Bear'') \<and>
              (Macro r \<in> {''Strong Bear'', ''Weak Bear''} \<longrightarrow> Micro r = ''Micro Bull'') \<and>
              (Macro r = ''Neutral'' \<longrightarrow> Micro r = ''Neutral'')) \<and>
         (\<forall>macro. classify_micro (take (Suc i) (map snd df)) FAST_LEN SLOW_LEN macro =
            (if str_in ''Bull'' macro then ''Micro Bear''
             else if str_in ''Bear'' macro then ''Micro Bull'' else ''Neutral''))"
proof -
  have d: "\<exists>r. snd (classify_daily_regime df al ! i) = Some r"
    using regime_loop_None_iff [OF assms(1), of 1 al] unfolding classify_daily_loop by auto
  have s: "sma SLOW_LEN (map (Close \<circ> snd) df) i = None"
    using assms(2) by (simp add: sma_def)
  have rows: "(Macro r \<in> {''Strong Bull'', ''Weak Bull''} \<longrightarrow> Micro r = ''Micro Bear'') \<and>
              (Macro r \<in> {''Strong Bear'', ''Weak Bear''} \<longrightarrow> Micro r = ''Micro Bull'') \<and>
              (Macro r = ''Neutral'' \<longrightarrow> Micro r = ''Neutral'')"
    if "snd (regime_loop n df al ! i) = Some r" for n r
  proof -
    note m = micro_row_sma [OF assms(1) that]
    have s10: "sma 10 (map (Close \<circ> snd) df) i = None"
      using s by (simp add: SLOW_LEN_def)
    show ?thesis
      by (subst m(2), subst m(2), subst m(2)) (simp add: s10 nan_gt_def nan_lt_def split: option.splits)
  qed
  have len: "length (take (Suc i) (map snd df)) < SLOW_LEN"
    using assms by simp
  show ?thesis
    unfolding classify_regime_loop classify_weekly_loop classify_daily_loop
    using d [unfolded classify_daily_loop] s rows classify_micro_short [OF len]
    by (simp del: take_Suc)
qed

theorem early_bars_fallback_micro_witness:
  "3 < length demo_frame \<and> Suc 3 < SLOW_LEN \<and>
   (\<exists>r. snd (classify_daily_regime demo_frame 14 ! 3) = Some r \<and>
        Macro r = ''Weak Bull'' \<and> Micro r = ''Micro Bear'')"
proof -
  have len: "3 < length demo_frame" by code_simp
  have sl: "Suc 3 < SLOW_LEN" by (simp add: SLOW_LEN_def)
  have "map_option Macro (snd (classify_daily_regime demo_frame 14 ! 3)) = Some ''Weak Bull''"
    by code_simp
  then show ?thesis
    using early_bars_fallback_micro [OF len sl, of 14] len sl by auto
qed

section \<open>Properties of the series algebra\<close>

lemma filter_key_distinct:
  "distinct (map fst df) \<Longrightarrow> (t, b) \<in> set df \<Longrightarrow> filter (\<lambda>r. fst r = t) df = [(t, b)]"
proof (induction df)
  case Nil
  then show ?case by simp
next
  case (Cons r df)
  show ?case
  proof (cases "r = (t, b)")
    case True
    have "filter (\<lambda>r. fst r = t) df = []"
      using Cons.prems(1) True by (auto simp: filter_empty_conv image_iff)
    with True show ?thesis by simp
  next
    case False
    then have "(t, b) \<in> set df" using Cons.prems(2) by simp
    moreover have "fst r \<noteq> t"
      using Cons.prems(1) calculation by (auto simp: image_iff)
    ultimately show ?thesis using Cons by simp
  qed
qed

lemma loc_sublist:
  "distinct (map fst df) \<Longrightarrow> set ys \<subseteq> set df \<Longrightarrow> loc (map fst ys) df = ys"
  by (induction ys) (auto simp: loc_def filter_key_distinct)

lemma loc_self: "distinct (map fst df) \<Longrightarrow> loc (map fst df) df = df"
  by (rule loc_sublist) simp_all

lemma index_intersection_self [simp]: "index_intersection a a = a"
  by (simp add: index_intersection_def)

lemma self_ratio_rows:
  assumes "\<forall>r\<in>set X. nonzero (snd r)"
  shows "dropna (map (\<lambda>((t, nb), (t', db)). (t, zip_ohlc nan_div nb db))
                  (zip X (map (\<lambda>(t, b). (t, map_ohlc replace_zero_nan b)) X)))
         = map (\<lambda>(t, b). (t, ones)) X"
  using assms
proof (induction X)
  case Nil
  then show ?case by (simp add: dropna_def)
next
  case (Cons r X)
  obtain t b where r: "r = (t, b)" by (cases r)
  have nz: "nonzero b" using Cons.prems r by simp
  have row: "zip_ohlc nan_div b (map_ohlc replace_zero_nan b) = map_ohlc Some ones"
    using nz by (simp add: zip_ohlc_def map_ohlc_def nan_div_def replace_zero_nan_def ones_def nonzero_def)
  have nn: "no_nan (map_ohlc Some ones)" by (simp add: no_nan_def map_ohlc_def)
  have unwrap: "map_ohlc the (map_ohlc Some ones) = ones" by (simp add: map_ohlc_def ones_def)
  have ih: "dropna (map (\<lambda>((t, nb), (t', db)). (t, zip_ohlc nan_div nb db))
                  (zip X (map (\<lambda>(t, b). (t, map_ohlc replace_zero_nan b)) X)))
         = map (\<lambda>(t, b). (t, ones)) X"
    using Cons by simp
  show ?case
    using ih by (simp add: r dropna_def row nn unwrap)
qed

text \<open>
  Claim C6. Dividing a series by itself, when none of its open, high, low and close values
  is zero, gives a series on the full index of the original whose four fields are 1 on
  every bar.
\<close>

theorem divide_self_all_ones:
  assumes "ascending X" and "\<forall>r\<in>set X. nonzero (snd r)"
  shows "ohlc_divide X X = map (\<lambda>(t, b). (t, ones)) X \<and>
         map fst (ohlc_divide X X) = map fst X"
proof -
  have d: "distinct (map fst X)"
    using assms(1) by (simp add: ascending_def strict_sorted_iff)
  have eq: "ohlc_divide X X = map (\<lambda>(t, b). (t, ones)) X"
  proof (cases "X = []")
    case True
    then show ?thesis by (simp add: ohlc_divide_def)
  next
    case False
    then show ?thesis
      by (simp add: ohlc_divide_def Let_def loc_self [OF d] self_ratio_rows [OF assms(2)])
  qed
  have "map fst (map (\<lambda>(t, b). (t, ones)) X) = map fst X"
    by (induction X) auto
  with eq show ?thesis by simp
qed

theorem divide_self_all_ones_witness:
  "ascending demo_frame \<and> list_all (\<lambda>r. nonzero (snd r)) demo_frame \<and>
   ohlc_divide demo_frame demo_frame = map (\<lambda>(t, b). (t, ones)) demo_frame \<and>
   length (ohlc_divide demo_frame demo_frame) = 12"
proof -
  have a: "ascending demo_frame" by code_simp
  have n: "\<forall>r\<in>set demo_frame. nonzero (snd r)" by code_simp
  have l: "length demo_frame = 12" by code_simp
  show ?thesis
    using divide_self_all_ones [OF a n] a n l by (simp add: list_all_iff)
qed

section \<open>Properties of the session classifier\<close>

lemma max_of_ge: "x \<in> set xs \<Longrightarrow> x \<le> max_of xs"
proof -
  have f: "a \<le> fold max ys a \<and> (\<forall>y\<in>set ys. y \<le> fold max ys a)" for ys and a :: real
  proof (induction ys arbitrary: a)
    case Nil
    then show ?case by simp
  next
    case (Cons y ys)
    have "max y a \<le> fold max ys (max y a)" using Cons by blast
    then show ?case using Cons [of "max y a"] by auto
  qed
  assume "x \<in> set xs"
  then show ?thesis using f by (cases xs) auto
qed

lemma min_of_le: "x \<in> set xs \<Longrightarrow> min_of xs \<le> x"
proof -
  have f: "fold min ys a \<le> a \<and> (\<forall>y\<in>set ys. fold min ys a \<le> y)" for ys and a :: real
  proof (induction ys arbitrary: a)
    case Nil
    then show ?case by simp
  next
    case (Cons y ys)
    have "fold min ys (min y a) \<le> min y a" using Cons by blast
    then show ?case using Cons [of "min y a"] by auto
  qed
  assume "x \<in> set xs"
  then show ?thesis using f by (cases xs) auto
qed

lemma session_snapshot_cases:
  "session_snapshot df a fl sl th (name, start, stop) =
     (if sess_df start stop df = [] then []
      else [hd (session_snapshot df a fl sl th (name, start, stop))])"
  by (simp add: session_snapshot_def Let_def)

lemma session_snapshot_row:
  assumes "sess_df start stop df \<noteq> []"
  shows "snapshot_of df (name, start, stop) (hd (session_snapshot df a fl sl th (name, start, stop)))"
proof -
  have bnd: "Low b \<ge> min_of (map (Low \<circ> snd) (sess_df start stop df)) \<and>
             High b \<le> max_of (map (High \<circ> snd) (sess_df start stop df))"
    if "(t, b) \<in> set df" "session_mask start stop t" for t b
  proof -
    have m: "(t, b) \<in> set (sess_df start stop df)" using that by (simp add: sess_df_def)
    have "High b \<in> set (map (High \<circ> snd) (sess_df start stop df))"
      and "Low b \<in> set (map (Low \<circ> snd) (sess_df start stop df))"
      using m by force+
    then show ?thesis using max_of_ge min_of_le by blast
  qed
  then have "list_all (\<lambda>(t, b). session_mask start stop t \<longrightarrow>
        min_of (map (Low \<circ> snd) (sess_df start stop df)) \<le> Low b \<and>
        High b \<le> max_of (map (High \<circ> snd) (sess_df start stop df))) df"
    by (auto simp: list_all_iff)
  then show ?thesis
    using assms by (simp add: session_snapshot_def snapshot_of_def Let_def)
qed

lemma session_snapshot_names:
  "map Session (session_snapshot df a fl sl th (name, start, stop)) =
     (if sess_df start stop df = [] then [] else [name])"
  by (simp add: session_snapshot_def Let_def)

lemma session_snapshot_rows:
  assumes "r \<in> set (session_snapshot df a fl sl th s)"
  shows "snapshot_of df s r"
proof -
  obtain name start stop where s: "s = (name, start, stop)" by (cases s)
  have ne: "sess_df start stop df \<noteq> []"
    using assms unfolding s by (subst (asm) session_snapshot_cases) (auto split: if_splits)
  have "r = hd (session_snapshot df a fl sl th (name, start, stop))"
    using assms ne unfolding s by (subst (asm) session_snapshot_cases) simp
  then show ?thesis
    unfolding s using session_snapshot_row [OF ne] by simp
qed

lemma snapshots_over:
  "map Session (concat (map (session_snapshot df a fl sl th) ss)) =
     map fst (filter (\<lambda>(name, start, stop). sess_df start stop df \<noteq> []) ss) \<and>
   (\<forall>r\<in>set (concat (map (session_snapshot df a fl sl th) ss)). \<exists>s\<in>set ss. snapshot_of df s r)"
proof
  show "map Session (concat (map (session_snapshot df a fl sl th) ss)) =
     map fst (filter (\<lambda>(name, start, stop). sess_df start stop df \<noteq> []) ss)"
  proof (induction ss)
    case Nil
    then show ?case by simp
  next
    case (Cons s ss)
    obtain name start stop where s: "s = (name, start, stop)" by (cases s)
    show ?case
      using Cons by (simp add: s session_snapshot_names)
  qed
  show "\<forall>r\<in>set (concat (map (session_snapshot df a fl sl th) ss)). \<exists>s\<in>set ss. snapshot_of df s r"
    using session_snapshot_rows by fastforce
qed

lemma half_day_sessions:
  "sess_df ''04:00'' ''05:00'' half_day_frame = []"
  "sess_df ''09:00'' ''10:00'' half_day_frame =
     [(540, \<lparr>Open = 9, High = 20, Low = 8, Close = 9\<rparr>),
      (1980, \<lparr>Open = 9, High = 10, Low = 8, Close = 9\<rparr>)]"
  "sess_df ''12:00'' ''13:00'' half_day_frame = []"
  "sess_df ''13:00'' ''14:00'' half_day_frame = []"
  by (simp_all add: sess_df_def half_day_frame_def session_mask_def str_ge_def
        strftime_HM_def two_digits_def)

text \<open>
  Claim C3, as amended. On an intraday frame that passes the frequency guard, the session
  classifier returns at most one snapshot per named session window for the whole series
  (at most four rows, in the order Asia, London, NY AM, NY PM), one for each window that
  holds a bar on any day; hi and lo are the maximum high and minimum low over all bars of
  the series whose local time of day lies in the window, on every day, and close is the
  close of the last such bar.
\<close>

theorem session_one_snapshot_per_window:
  assumes "df \<noteq> []" and "freq \<notin> daily_or_coarser"
  shows "map Session (classify_session_regimes freq df fl sl al th) =
           map fst (filter (\<lambda>(name, start, stop). sess_df start stop df \<noteq> []) sessions) \<and>
         length (classify_session_regimes freq df fl sl al th) \<le> 4 \<and>
         distinct (map Session (classify_session_regimes freq df fl sl al th)) \<and>
         (\<forall>r\<in>set (classify_session_regimes freq df fl sl al th).
            \<exists>s\<in>set sessions. snapshot_of df s r)"
proof -
  let ?out = "classify_session_regimes freq df fl sl al th"
  have out: "?out = concat (map (session_snapshot df (atr (map snd df) al) fl sl th) sessions)"
    using assms by (simp add: classify_session_regimes_def Let_def)
  have names: "map Session ?out =
      map fst (filter (\<lambda>(name, start, stop). sess_df start stop df \<noteq> []) sessions)"
    unfolding out by (rule conjunct1 [OF snapshots_over])
  have rows: "\<forall>r\<in>set ?out. \<exists>s\<in>set sessions. snapshot_of df s r"
    unfolding out by (rule conjunct2 [OF snapshots_over])
  have "length (map Session ?out) \<le> length sessions"
    unfolding names by simp
  then have len: "length ?out \<le> 4" by (simp add: sessions_def)
  have "distinct (map fst sessions)" by (simp add: sessions_def)
  then have dis: "distinct (map Session ?out)"
    unfolding names by (rule distinct_map_filter)
  from names len dis rows show ?thesis by (intro conjI)
qed

theorem session_one_snapshot_per_window_witness:
  "half_day_frame \<noteq> [] \<and> Some ''12h'' \<notin> daily_or_coarser \<and>
   map Session (classify_session_regimes (Some ''12h'') half_day_frame 5 10 14 (1 / 2)) =
     [''London''] \<and>
   length (classify_session_regimes (Some ''12h'') half_day_frame 5 10 14 (1 / 2)) \<le> 4"
proof -
  have ne: "half_day_frame \<noteq> []" by (simp add: half_day_frame_def)
  have fr: "Some ''12h'' \<notin> daily_or_coarser" by (simp add: daily_or_coarser_def)
  have "map fst (filter (\<lambda>(name, start, stop). sess_df start stop half_day_frame \<noteq> []) sessions)
        = [''London'']"
    by (simp add: sessions_def half_day_sessions)
  then show ?thesis
    using session_one_snapshot_per_window [OF ne fr, of 5 10 14 "1 / 2"] ne fr by simp
qed

text \<open>
  Claim C3 as stated fails: on a twelve-hourly frame whose London window holds one bar on
  day 0 (high 20) and one bar on day 1 (high 10), the classifier returns a single London
  row with hi 20, where one snapshot per day would give two rows, the second with hi 10.
\<close>

theorem session_per_day_counterexample:
  "classify_session_regimes (Some ''12h'') half_day_frame 5 10 14 (1 / 2) =
     [\<lparr>Macro = ''Weak Bear'', Micro = ''Micro Bull'', Transition = ''Approaching Weak Bear'',
       RClose = 9, Hi = 20, Lo = 8, Mid = 14, Session = ''London''\<rparr>] \<and>
   spec_day_snapshots half_day_frame = [(''London'', 0, 20, 8), (''London'', 1, 10, 8)]"
proof -
  have ne: "half_day_frame \<noteq> []" by (simp add: half_day_frame_def)
  have fr: "Some ''12h'' \<notin> daily_or_coarser" by (simp add: daily_or_coarser_def)
  have a: "last (atr (map snd half_day_frame) 14) = 9 / 2"
    by (simp add: half_day_frame_def atr_def rolling_mean_min1_def true_range_def window_def
          mean_def upt_rec Let_def)
  have mi: "classify_micro [\<lparr>Open = 9, High = 20, Low = 8, Close = 9\<rparr>,
              \<lparr>Open = 9, High = 10, Low = 8, Close = 9\<rparr>] 5 10 ''Weak Bear'' = ''Micro Bull''"
    by (rule trans [OF classify_micro_short]) simp_all
  have out: "classify_session_regimes (Some ''12h'') half_day_frame 5 10 14 (1 / 2) =
     [\<lparr>Macro = ''Weak Bear'', Micro = ''Micro Bull'', Transition = ''Approaching Weak Bear'',
       RClose = 9, Hi = 20, Lo = 8, Mid = 14, Session = ''London''\<rparr>]"
    using ne fr
    by (simp add: classify_session_regimes_def sessions_def session_snapshot_def half_day_sessions
          a mi Let_def classify_macro_def classify_transition_def)
  have sp: "spec_day_snapshots half_day_frame = [(''London'', 0, 20, 8), (''London'', 1, 10, 8)]"
    by (simp add: spec_day_snapshots_def sessions_def half_day_sessions day_of_def)
  from out sp show ?thesis by (rule conjI)
qed

lemma session_guard_literal_labels:
  assumes "freq \<in> {Some ''D'', Some ''B'', Some ''W'', Some ''M'', Some ''Q'', Some ''A'', None}"
  shows "classify_session_regimes freq df fast_len slow_len atr_len near_thresh_atr = []"
  using assms unfolding classify_session_regimes_def daily_or_coarser_def by auto

lemma weekly_sessions:
  "sess_df ''04:00'' ''05:00'' weekly_frame = []"
  "sess_df ''09:00'' ''10:00'' weekly_frame = weekly_frame"
  "sess_df ''12:00'' ''13:00'' weekly_frame = []"
  "sess_df ''13:00'' ''14:00'' weekly_frame = []"
  by (simp_all add: sess_df_def weekly_frame_def session_mask_def str_ge_def
        strftime_HM_def two_digits_def)

text \<open>
  Claim C9 fails on the code. The guard compares the inferred frequency with the literal
  labels B, D, W, M, Q and A (lemma \<open>session_guard_literal_labels\<close>), but the label of a
  weekly index is anchored on its weekday (W-MON for Mondays), as are the month-start,
  quarterly and annual labels, so such a series passes the guard that the comment
  \<^verbatim>\<open>If df index is daily/weekly frequency, no session info is available\<close> announces. On
  four weekly bars stamped 09:00 local time, seven days apart, the classifier returns a
  London row instead of the empty frame.
\<close>

theorem session_guard_weekly_passes:
  "map (day_of \<circ> fst) weekly_frame = [0, 7, 14, 21] \<and>
   Some ''W-MON'' \<notin> daily_or_coarser \<and>
   classify_session_regimes (Some ''W-MON'') weekly_frame 5 10 14 (1 / 2) =
     [\<lparr>Macro = ''Weak Bull'', Micro = ''Micro Bear'', Transition = ''Approaching Weak Bull'',
       RClose = 19 / 2, Hi = 10, Lo = 8, Mid = 9, Session = ''London''\<rparr>]"
proof -
  have days: "map (day_of \<circ> fst) weekly_frame = [0, 7, 14, 21]"
    by (simp add: weekly_frame_def day_of_def)
  have ne: "weekly_frame \<noteq> []" by (simp add: weekly_frame_def)
  have fr: "Some ''W-MON'' \<notin> daily_or_coarser" by (simp add: daily_or_coarser_def)
  have a: "last (atr (map snd weekly_frame) 14) = 2"
    by (simp add: weekly_frame_def atr_def rolling_mean_min1_def true_range_def window_def
          mean_def upt_rec Let_def)
  have mi: "classify_micro (map snd weekly_frame) 5 10 ''Weak Bull'' = ''Micro Bear''"
    by (rule trans [OF classify_micro_short]) (simp_all add: weekly_frame_def)
  have v: "max_of (map (High \<circ> snd) weekly_frame) = 10"
    "min_of (map (Low \<circ> snd) weekly_frame) = 8"
    "Close (snd (last weekly_frame)) = 19 / 2"
    by (simp_all add: weekly_frame_def)
  have out: "classify_session_regimes (Some ''W-MON'') weekly_frame 5 10 14 (1 / 2) =
     [\<lparr>Macro = ''Weak Bull'', Micro = ''Micro Bear'', Transition = ''Approaching Weak Bull'',
       RClose = 19 / 2, Hi = 10, Lo = 8, Mid = 9, Session = ''London''\<rparr>]"
    using ne fr
    by (simp add: classify_session_regimes_def sessions_def session_snapshot_def weekly_sessions
          v a Let_def classify_macro_def mi classify_transition_def)
  from days fr out show ?thesis by (intro conjI)
qed

section \<open>Properties of the index synthesizer\<close>

lemma fold_intersection:
  "fold (\<lambda>idx common. index_intersection common idx) rest first =
     filter (\<lambda>t. \<forall>idx\<in>set rest. t \<in> set idx) first"
proof (induction rest arbitrary: first)
  case Nil
  then show ?case by simp
next
  case (Cons a rest)
  show ?case
    by (simp add: Cons, simp add: index_intersection_def conj_commute)
qed

lemma resync_index_member:
  assumes "t \<in> set (resync_index dfs)" and "(k, df) \<in> set dfs" and "df \<noteq> []"
  shows "t \<in> fst ` set df"
proof -
  let ?ne = "filter (\<lambda>(k, df). df \<noteq> []) dfs"
  let ?ix = "map (\<lambda>(k, df). map fst df) ?ne"
  have mem: "map fst df \<in> set ?ix"
    using assms(2,3) by force
  then obtain first rest where fr: "?ix = first # rest"
    by (cases ?ix) auto
  have "resync_index dfs = filter (\<lambda>t. \<forall>idx\<in>set rest. t \<in> set idx) first"
    unfolding resync_index_def Let_def fr by (simp add: fold_intersection)
  then have "t \<in> set first" and "\<forall>idx\<in>set rest. t \<in> set idx"
    using assms(1) by auto
  then have "\<forall>idx\<in>set ?ix. t \<in> set idx"
    unfolding fr by simp
  then have "t \<in> set (map fst df)" using mem by blast
  then show ?thesis by simp
qed

lemma resync_index_filter:
  assumes "filter (\<lambda>(k, df). df \<noteq> []) dfs = (k, first) # rest"
  shows "resync_index dfs =
           filter (\<lambda>t. \<forall>df\<in>set (map snd rest). t \<in> fst ` set df) (map fst first)"
proof -
  have p: "(\<forall>idx\<in>set (map (\<lambda>(k, df). map fst df) rest). t \<in> set idx) =
           (\<forall>df\<in>set (map snd rest). t \<in> fst ` set df)" for t
    by (simp add: split_beta)
  have "resync_index dfs =
          fold (\<lambda>idx common. index_intersection common idx)
            (map (\<lambda>(k, df). map fst df) rest) (map fst first)"
    unfolding resync_index_def Let_def assms by simp
  also have "\<dots> = filter (\<lambda>t. \<forall>idx\<in>set (map (\<lambda>(k, df). map fst df) rest). t \<in> set idx)
                       (map fst first)"
    by (rule fold_intersection)
  finally show ?thesis by (simp only: p)
qed

lemma resync_index_sorted:
  assumes "\<forall>(k, df)\<in>set dfs. ascending df"
  shows "sorted_wrt (<) (resync_index dfs)"
proof (cases "filter (\<lambda>(k, df). df \<noteq> []) dfs")
  case Nil
  then show ?thesis by (simp add: resync_index_def)
next
  case (Cons p rest)
  obtain k first where p: "p = (k, first)" by (cases p)
  have "(k, first) \<in> set (filter (\<lambda>(k, df). df \<noteq> []) dfs)"
    unfolding Cons p by simp
  then have "ascending first" using assms by auto
  then have "sorted_wrt (<) (map fst first)" by (simp add: ascending_def)
  then show ?thesis
    unfolding resync_index_filter [OF Cons [unfolded p]] by (rule sorted_wrt_filter)
qed

lemma resync_index_set:
  assumes "filter (\<lambda>(k, df). df \<noteq> []) dfs \<noteq> []"
  shows "set (resync_index dfs) =
           (\<Inter>df\<in>set (map snd (filter (\<lambda>(k, df). df \<noteq> []) dfs)). fst ` set df)"
proof -
  from assms obtain p rest where c: "filter (\<lambda>(k, df). df \<noteq> []) dfs = p # rest"
    by (cases "filter (\<lambda>(k, df). df \<noteq> []) dfs") auto
  obtain k first where p: "p = (k, first)" by (cases p)
  show ?thesis
    unfolding resync_index_filter [OF c [unfolded p]] c p by auto
qed

lemma map_of_row_at:
  "t \<in> fst ` set df \<Longrightarrow> map_of df t = Some (row_at df t)"
  unfolding row_at_def by (cases "map_of df t") (auto simp: map_of_eq_None_iff)

lemma dropna_all_present:
  "dropna (map (\<lambda>t. (t, map_ohlc Some (g t))) idx) = map (\<lambda>t. (t, g t)) idx"
  by (induction idx) (simp_all add: dropna_def no_nan_def map_ohlc_def)

lemma dropna_reindex:
  assumes "\<forall>t\<in>set idx. t \<in> fst ` set df"
  shows "dropna (reindex idx df) = map (\<lambda>t. (t, row_at df t)) idx"
proof -
  have "reindex idx df = map (\<lambda>t. (t, map_ohlc Some (row_at df t))) idx"
    unfolding reindex_def using assms by (intro map_cong refl) (simp add: map_of_row_at)
  then show ?thesis by (simp add: dropna_all_present)
qed

lemma map_of_tabulate:
  "map_of (map (\<lambda>t. (t, g t)) idx) t = (if t \<in> set idx then Some (g t) else None)"
  by (induction idx) auto

lemma map_of_dropna_tabulate:
  "map_of (dropna (map (\<lambda>t. (t, R t)) idx)) t =
     (if t \<in> set idx \<and> no_nan (R t) then Some (map_ohlc the (R t)) else None)"
  by (induction idx) (auto simp: dropna_def)

lemma keys_dropna_tabulate:
  "set (map fst (dropna (map (\<lambda>t. (t, R t)) idx))) \<subseteq> set idx"
  by (auto simp: dropna_def)

lemma dropna_keys_all:
  "\<forall>t\<in>set idx. no_nan (R t) \<Longrightarrow> map fst (dropna (map (\<lambda>t. (t, R t)) idx)) = idx"
  by (induction idx) (simp_all add: dropna_def)

lemma normalize_tabulate:
  assumes "idx \<noteq> []"
  shows "normalize_ohlc (map (\<lambda>t. (t, row_at df t)) idx) base =
           map (\<lambda>t. (t, map_ohlc (\<lambda>v. v * spec_scale idx base df) (row_at df t))) idx"
proof -
  have "hd (map (\<lambda>t. (t, row_at df t)) idx) = (hd idx, row_at df (hd idx))"
    using assms by (simp add: hd_map)
  then show ?thesis
    using assms by (simp add: normalize_ohlc_def spec_scale_def Let_def)
qed

lemma keys_normalize [simp]: "map fst (normalize_ohlc df base) = map fst df"
  by (auto simp: normalize_ohlc_def Let_def)

lemma sort_remdups_unique:
  assumes "sorted_wrt (<) xs" and "set ys = set xs"
  shows "sort (remdups ys) = xs"
proof -
  have "sorted xs" and "distinct xs"
    using assms(1) by (simp_all add: strict_sorted_iff)
  moreover have "sorted (sort (remdups ys))" and "distinct (sort (remdups ys))"
    by simp_all
  moreover have "set (sort (remdups ys)) = set xs"
    using assms(2) by simp
  ultimately show ?thesis
    by (metis sorted_distinct_set_unique)
qed

lemma union_index_same:
  assumes "sorted_wrt (<) idx" and "frames \<noteq> []" and "\<forall>f\<in>set frames. map fst f = idx"
  shows "union_index frames = idx"
proof -
  have "set (concat (map (map fst) frames)) = set idx"
    using assms(2,3) by (cases frames) auto
  then show ?thesis
    unfolding union_index_def by (rule sort_remdups_unique [OF assms(1)])
qed

lemma values_of_Nil [simp]: "values_of [] = []"
  by (simp add: values_of_def)

lemma values_of_Some [simp]: "values_of (map Some vs) = vs"
  by (induction vs) (simp_all add: values_of_def)

lemma values_of_append [simp]: "values_of (xs @ ys) = values_of xs @ values_of ys"
  by (simp add: values_of_def)

lemma values_of_replicate:
  "values_of (concat (replicate k (map Some vs))) = concat (replicate k vs)"
  by (induction k) simp_all

lemma values_of_nonempty: "Some v \<in> set cs \<Longrightarrow> values_of cs \<noteq> []"
  by (induction cs) (auto simp: values_of_def split: option.splits)

lemma sum_list_concat_replicate:
  "sum_list (concat (replicate k vs)) = real k * sum_list (vs :: real list)"
  by (induction k) (simp_all add: algebra_simps)

lemma length_concat_replicate:
  "length (concat (replicate k vs)) = k * length vs"
  by (induction k) simp_all

lemma mean_replicate:
  assumes "0 < k"
  shows "mean (concat (replicate k vs)) = mean vs"
  using assms
  by (simp add: mean_def sum_list_concat_replicate length_concat_replicate)

lemma mean_skipna_selected:
  assumes "0 < k" and "vs \<noteq> []"
  shows "mean_skipna (concat (replicate k (map Some vs))) = Some (mean vs)"
proof -
  have "concat (replicate k vs) \<noteq> []"
    using assms by (cases k) auto
  then show ?thesis
    unfolding mean_skipna_def values_of_replicate by (simp add: mean_replicate [OF assms(1)])
qed

lemma ew_aligned:
  assumes m: "members = filter (\<lambda>(k, v). v \<noteq> []) ohlc_members"
    and c: "resync_index members \<noteq> []"
    and asc: "\<forall>(k, df)\<in>set members. ascending df"
  shows "ew_index_from_members ohlc_members base =
           map (\<lambda>t. (t, spec_ew_bar (map snd members) (resync_index members) base t))
               (resync_index members)"
proof -
  define common where "common = resync_index members"
  define fs where "fs = map snd members"
  define N where "N = (\<lambda>df. map (\<lambda>t. (t, map_ohlc (\<lambda>v. v * spec_scale common base df) (row_at df t))) common)"
  define frames where "frames = map N fs"
  have cne: "common \<noteq> []" using c by (simp add: common_def)
  have mne: "members \<noteq> []" using c by (auto simp: resync_index_def)
  have nonempty: "df \<noteq> []" if "(k, df) \<in> set members" for k df
    using that unfolding m by auto
  have keys: "t \<in> fst ` set df" if "t \<in> set common" "(k, df) \<in> set members" for t k df
    using that(1) unfolding common_def
    by (rule resync_index_member [OF _ that(2) nonempty [OF that(2)]])
  have fr: "map (\<lambda>(k, df). normalize_ohlc
              (if common \<noteq> [] then dropna (reindex common df) else df) base) members = frames"
    unfolding frames_def fs_def map_map
  proof (rule map_cong [OF refl])
    fix x assume x: "x \<in> set members"
    obtain k df where kd: "x = (k, df)" by (cases x)
    have "dropna (reindex common df) = map (\<lambda>t. (t, row_at df t)) common"
      by (rule dropna_reindex) (use keys x kd in blast)
    then have "normalize_ohlc (if common \<noteq> [] then dropna (reindex common df) else df) base = N df"
      using cne by (simp add: normalize_tabulate N_def)
    then show "(case x of (k, df) \<Rightarrow> normalize_ohlc
              (if common \<noteq> [] then dropna (reindex common df) else df) base) = (N \<circ> snd) x"
      by (simp add: kd)
  qed
  have fne: "frames \<noteq> []" using mne by (simp add: frames_def fs_def)
  have out: "ew_index_from_members ohlc_members base =
               dropna (map (\<lambda>t. (t, ew_row frames t)) (union_index frames))"
    unfolding ew_index_from_members_def m [symmetric] Let_def common_def [symmetric] fr
    using mne fne by simp
  have srt: "sorted_wrt (<) common"
    unfolding common_def by (rule resync_index_sorted [OF asc])
  have "\<forall>f\<in>set frames. map fst f = common"
    by (auto simp: frames_def N_def comp_def)
  then have ui: "union_index frames = common"
    by (rule union_index_same [OF srt fne])
  have len: "0 < length frames" using fne by simp
  have fsne: "fs \<noteq> []" using mne by (simp add: fs_def)
  have cell: "mean_skipna (selected_cells fld frames t) =
                Some (mean (map (\<lambda>df. fld (row_at df t) * spec_scale common base df) fs))"
    if t: "t \<in> set common" and fld: "\<And>b f. fld (map_ohlc f b) = f (fld b)" for fld t
  proof -
    have "column_cells fld frames t =
            map Some (map (\<lambda>df. fld (row_at df t) * spec_scale common base df) fs)"
      using t by (simp add: column_cells_def frames_def N_def map_of_tabulate fld comp_def)
    then show ?thesis
      unfolding selected_cells_def
      by (simp only: mean_skipna_selected [OF len] fsne map_is_Nil_conv not_False_eq_True)
  qed
  have row: "ew_row frames t = map_ohlc Some (spec_ew_bar fs common base t)"
    if t: "t \<in> set common" for t
    unfolding ew_row_def spec_ew_bar_def
    by (simp add: cell [OF t] map_ohlc_def)
  have eq: "map (\<lambda>t. (t, ew_row frames t)) common =
        map (\<lambda>t. (t, map_ohlc Some (spec_ew_bar fs common base t))) common"
    by (rule map_cong [OF refl]) (simp add: row)
  have "ew_index_from_members ohlc_members base =
          map (\<lambda>t. (t, spec_ew_bar fs common base t)) common"
    by (simp only: out ui eq dropna_all_present)
  then show ?thesis unfolding common_def fs_def .
qed

lemma ew_unaligned:
  assumes m: "members = filter (\<lambda>(k, v). v \<noteq> []) ohlc_members"
    and mne: "members \<noteq> []"
    and c: "resync_index members = []"
  shows "map fst (ew_index_from_members ohlc_members base) = union_index (map snd members)"
    and "ew_index_from_members ohlc_members base \<noteq> []"
proof -
  define frames where "frames = map (\<lambda>(k, df). normalize_ohlc df base) members"
  have fne: "frames \<noteq> []" using mne by (simp add: frames_def)
  have fr: "map (\<lambda>(k, df). normalize_ohlc
              (if resync_index members \<noteq> [] then dropna (reindex (resync_index members) df) else df)
              base) members = frames"
    unfolding frames_def c by simp
  have out: "ew_index_from_members ohlc_members base =
               dropna (map (\<lambda>t. (t, ew_row frames t)) (union_index frames))"
    unfolding ew_index_from_members_def m [symmetric] Let_def fr
    using mne fne by simp
  have "map (map fst) frames = map (map fst) (map snd members)"
    by (simp add: frames_def split_beta)
  then have ui: "union_index frames = union_index (map snd members)"
    by (simp only: union_index_def)
  have cell: "mean_skipna (selected_cells fld frames t) \<noteq> None"
    if t: "t \<in> set (union_index frames)" for fld t
  proof -
    from t obtain f where f: "f \<in> set frames" "t \<in> fst ` set f"
      by (auto simp: union_index_def)
    then obtain b where "map_of f t = Some b"
      using map_of_row_at by blast
    then have "Some (fld b) \<in> set (column_cells fld frames t)"
      using f(1) by (force simp: column_cells_def)
    moreover have "set (selected_cells fld frames t) = set (column_cells fld frames t)"
      using fne by (cases frames) (auto simp: selected_cells_def)
    ultimately have "values_of (selected_cells fld frames t) \<noteq> []"
      using values_of_nonempty by blast
    then show ?thesis by (simp add: mean_skipna_def)
  qed
  have "\<forall>t\<in>set (union_index frames). no_nan (ew_row frames t)"
    by (simp add: no_nan_def ew_row_def cell)
  then have keys: "map fst (ew_index_from_members ohlc_members base) = union_index frames"
    unfolding out by (rule dropna_keys_all)
  then show "map fst (ew_index_from_members ohlc_members base) = union_index (map snd members)"
    by (simp only: ui)
  obtain k df where kd: "(k, df) \<in> set members" using mne by (cases members) auto
  then have "df \<noteq> []" unfolding m by auto
  then obtain r where "r \<in> set df" by (cases df) auto
  then have "fst r \<in> set (union_index (map snd members))"
    using kd by (force simp: union_index_def)
  then have "union_index (map snd members) \<noteq> []" by auto
  then show "ew_index_from_members ohlc_members base \<noteq> []"
    using keys ui by auto
qed

text \<open>
  Claim C4, as amended. The equal-weight composite is empty when no member is non-empty.
  When the intersection of the non-empty members' timestamps is not empty, the composite is
  built on that intersection: every member is restricted to it and normalized independently
  to the base, and each field of each bar is the arithmetic mean across the members. When
  the intersection is empty the members are left unaligned and the composite is not empty:
  it has one bar for every timestamp of any member.
\<close>

theorem ew_composite_alignment:
  "(members_of ohlc_members = [] \<longrightarrow> ew_index_from_members ohlc_members base = []) \<and>
   (resync_index (members_of ohlc_members) \<noteq> [] \<and>
    (\<forall>(k, df)\<in>set (members_of ohlc_members). ascending df) \<longrightarrow>
      set (resync_index (members_of ohlc_members)) =
        (\<Inter>df\<in>set (map snd (members_of ohlc_members)). fst ` set df) \<and>
      ew_index_from_members ohlc_members base =
        map (\<lambda>t. (t, spec_ew_bar (map snd (members_of ohlc_members))
                      (resync_index (members_of ohlc_members)) base t))
            (resync_index (members_of ohlc_members))) \<and>
   (members_of ohlc_members \<noteq> [] \<and> resync_index (members_of ohlc_members) = [] \<longrightarrow>
      ew_index_from_members ohlc_members base \<noteq> [] \<and>
      map fst (ew_index_from_members ohlc_members base) =
        union_index (map snd (members_of ohlc_members)))"
proof (intro conjI impI)
  assume "members_of ohlc_members = []"
  then show "ew_index_from_members ohlc_members base = []"
    by (simp add: ew_index_from_members_def members_of_def)
next
  assume a: "resync_index (members_of ohlc_members) \<noteq> [] \<and>
    (\<forall>(k, df)\<in>set (members_of ohlc_members). ascending df)"
  have idem: "filter (\<lambda>(k, df). df \<noteq> []) (members_of ohlc_members) = members_of ohlc_members"
    by (simp add: members_of_def)
  have "members_of ohlc_members \<noteq> []"
    using a by (auto simp: resync_index_def)
  then show "set (resync_index (members_of ohlc_members)) =
        (\<Inter>df\<in>set (map snd (members_of ohlc_members)). fst ` set df)"
    by (rule resync_index_set [of "members_of ohlc_members", unfolded idem])
  show "ew_index_from_members ohlc_members base =
        map (\<lambda>t. (t, spec_ew_bar (map snd (members_of ohlc_members))
                      (resync_index (members_of ohlc_members)) base t))
            (resync_index (members_of ohlc_members))"
    by (rule ew_aligned [OF members_of_def]) (use a in blast)+
next
  assume a: "members_of ohlc_members \<noteq> [] \<and> resync_index (members_of ohlc_members) = []"
  then show "ew_index_from_members ohlc_members base \<noteq> []"
    using ew_unaligned(2) [OF members_of_def] by blast
  from a show "map fst (ew_index_from_members ohlc_members base) =
        union_index (map snd (members_of ohlc_members))"
    using ew_unaligned(1) [OF members_of_def] by blast
qed

theorem ew_composite_alignment_witness:
  "resync_index (members_of overlap_members) = [2] \<and>
   ew_index_from_members overlap_members 100 =
     [(2, \<lparr>Open = 100, High = 150, Low = 75, Close = 100\<rparr>)] \<and>
   members_of [(''E'', [])] = [] \<and> ew_index_from_members [(''E'', [])] 100 = [] \<and>
   resync_index (members_of disjoint_members) = [] \<and>
   map fst (ew_index_from_members disjoint_members 100) = [1, 2]"
proof -
  have c: "resync_index (members_of overlap_members) = [2]" by code_simp
  have a: "list_all (\<lambda>(k, df). ascending df) (members_of overlap_members)" by code_simp
  have b: "map (\<lambda>t. (t, spec_ew_bar (map snd (members_of overlap_members))
                      (resync_index (members_of overlap_members)) 100 t))
            (resync_index (members_of overlap_members)) =
           [(2, \<lparr>Open = 100, High = 150, Low = 75, Close = 100\<rparr>)]" by code_simp
  have e: "members_of [(''E'', [])] = []" by code_simp
  have d: "resync_index (members_of disjoint_members) = []"
    "members_of disjoint_members \<noteq> []" "union_index (map snd (members_of disjoint_members)) = [1, 2]"
    by code_simp+
  show ?thesis
    using ew_composite_alignment [of overlap_members 100] ew_composite_alignment [of "[(''E'', [])]" 100]
      ew_composite_alignment [of disjoint_members 100] a b c d e
    by (simp add: list_all_iff)
qed

text \<open>
  Claim C4 as stated fails: two members without a common timestamp give a composite of two
  bars, not the empty series.
\<close>

theorem ew_disjoint_counterexample:
  "resync_index disjoint_members = [] \<and>
   ew_index_from_members disjoint_members 100 =
     [(1, \<lparr>Open = 100, High = 100, Low = 100, Close = 100\<rparr>),
      (2, \<lparr>Open = 100, High = 100, Low = 100, Close = 100\<rparr>)]"
  by code_simp

lemma geo_mean_positive:
  assumes "vs \<noteq> []" and "\<forall>v\<in>set vs. 0 < v"
  shows "np_exp (mean_log (map np_log (map Some vs))) = Some (spec_geo_mean vs)"
proof -
  have logs: "map np_log (map Some vs) = map (\<lambda>v. Fin (ln v)) vs"
    using assms(2) by (simp add: np_log_def)
  have pres: "filter (\<lambda>l. l \<noteq> NaN) (map (\<lambda>v. Fin (ln v)) vs) = map (\<lambda>v. Fin (ln v)) vs"
    by (induction vs) simp_all
  have vals: "map fin_value (map (\<lambda>v. Fin (ln v)) vs) = map ln vs"
    by simp
  have "mean_log (map (\<lambda>v. Fin (ln v)) vs) = Fin (mean (map ln vs))"
    unfolding mean_log_def Let_def pres vals using assms(1) by auto
  then show ?thesis
    unfolding logs by (simp add: np_exp_def spec_geo_mean_def)
qed

lemma geo_cell_positive:
  assumes "members \<noteq> []" and "t \<in> set idx"
    and "\<forall>df\<in>set members. t \<in> fst ` set df \<and> 0 < fld (row_at df t)"
  shows "geo_cell fld (map (\<lambda>df. map (\<lambda>t. (t, row_at df t)) idx) members) t =
           Some (spec_geo_mean (map (\<lambda>df. fld (row_at df t)) members))"
proof -
  have cells: "column_cells fld (map (\<lambda>df. map (\<lambda>t. (t, row_at df t)) idx) members) t =
                 map Some (map (\<lambda>df. fld (row_at df t)) members)"
    using assms(2) by (simp add: column_cells_def map_of_tabulate comp_def)
  show ?thesis
    unfolding geo_cell_def cells
    by (rule geo_mean_positive) (use assms in auto)
qed

lemma yahoo_data_nonempty:
  "(k, df) \<in> set (yahoo_data fetch_data) \<Longrightarrow> df \<noteq> []"
  by (auto simp: yahoo_data_def Let_def split: if_splits)

text \<open>
  Claim C5, as amended. In the geometric composite, every bar of the aligned members on
  which all four values of every member are strictly positive is emitted, and each of its
  fields is the exponential of the arithmetic mean of the natural logarithms of the members'
  values; the output holds bars of the common index only.
\<close>

theorem geometric_composite_positive:
  assumes "t \<in> set (resync_index (yahoo_data fetch_data))"
    and "\<forall>df\<in>set (map snd (yahoo_data fetch_data)). positive (row_at df t)"
  shows "map_of (build_yahoo_composite fetch_data) t =
           Some (spec_geo_bar (map snd (yahoo_data fetch_data)) t) \<and>
         set (map fst (build_yahoo_composite fetch_data)) \<subseteq> set (resync_index (yahoo_data fetch_data))"
proof -
  let ?data = "yahoo_data fetch_data"
  define idx where "idx = resync_index ?data"
  define members where "members = map snd ?data"
  define frames where "frames = map (\<lambda>df. map (\<lambda>t. (t, row_at df t)) idx) members"
  have t: "t \<in> set idx" using assms(1) by (simp add: idx_def)
  have pos: "\<forall>df\<in>set members. positive (row_at df t)"
    using assms(2) by (simp add: members_def)
  have ne: "?data \<noteq> []"
    using assms(1) by (auto simp: resync_index_def)
  have keys': "t' \<in> fst ` set df" if "t' \<in> set idx" "(k, df) \<in> set ?data" for t' k df
    using that(1) unfolding idx_def
    by (rule resync_index_member [OF _ that(2) yahoo_data_nonempty [OF that(2)]])
  have keys: "t' \<in> fst ` set df" if "t' \<in> set idx" "df \<in> set members" for t' df
    using that keys' unfolding members_def by auto
  have fr: "map (\<lambda>(t, df). dropna (reindex idx df)) ?data = frames"
    unfolding frames_def members_def map_map
  proof (rule map_cong [OF refl])
    fix x assume x: "x \<in> set ?data"
    obtain k df where kd: "x = (k, df)" by (cases x)
    have "dropna (reindex idx df) = map (\<lambda>t. (t, row_at df t)) idx"
      by (rule dropna_reindex) (use keys' x kd in blast)
    then show "(case x of (t, df) \<Rightarrow> dropna (reindex idx df)) =
               ((\<lambda>df. map (\<lambda>t. (t, row_at df t)) idx) \<circ> snd) x"
      by (simp add: kd)
  qed
  have out: "build_yahoo_composite fetch_data = dropna (map (\<lambda>t. (t, geo_row frames t)) idx)"
    using ne unfolding build_yahoo_composite_def composite_of_def Let_def idx_def [symmetric] fr
    by simp
  have mne: "members \<noteq> []" using ne by (simp add: members_def)
  have cell: "geo_cell fld frames t = Some (spec_geo_mean (map (\<lambda>df. fld (row_at df t)) members))"
    if "\<forall>df\<in>set members. 0 < fld (row_at df t)" for fld
    unfolding frames_def
    by (rule geo_cell_positive [OF mne t]) (use that keys [OF t] in blast)
  have c1: "geo_cell Open frames t = Some (spec_geo_mean (map (\<lambda>df. Open (row_at df t)) members))"
    by (rule cell) (use pos in \<open>simp add: positive_def\<close>)
  have c2: "geo_cell High frames t = Some (spec_geo_mean (map (\<lambda>df. High (row_at df t)) members))"
    by (rule cell) (use pos in \<open>simp add: positive_def\<close>)
  have c3: "geo_cell Low frames t = Some (spec_geo_mean (map (\<lambda>df. Low (row_at df t)) members))"
    by (rule cell) (use pos in \<open>simp add: positive_def\<close>)
  have c4: "geo_cell Close frames t = Some (spec_geo_mean (map (\<lambda>df. Close (row_at df t)) members))"
    by (rule cell) (use pos in \<open>simp add: positive_def\<close>)
  have row: "geo_row frames t = map_ohlc Some (spec_geo_bar members t)"
    unfolding geo_row_def spec_geo_bar_def map_ohlc_def c1 c2 c3 c4 by simp
  have "map_of (build_yahoo_composite fetch_data) t = Some (spec_geo_bar members t)"
    unfolding out map_of_dropna_tabulate using t
    by (simp add: row no_nan_def map_ohlc_def)
  moreover have "set (map fst (build_yahoo_composite fetch_data)) \<subseteq> set idx"
    unfolding out by (rule keys_dropna_tabulate)
  ultimately show ?thesis unfolding idx_def members_def by (rule conjI)
qed

theorem geometric_composite_positive_witness:
  "resync_index (yahoo_data unit_fetch) = [1] \<and>
   map_of (build_yahoo_composite unit_fetch) 1 = Some \<lparr>Open = 1, High = 1, Low = 1, Close = 1\<rparr>"
proof -
  have d: "yahoo_data unit_fetch =
     [(''^IXIC'', [(1, \<lparr>Open = 1, High = 1, Low = 1, Close = 1\<rparr>)]),
      (''^GSPC'', [(1, \<lparr>Open = 1, High = 1, Low = 1, Close = 1\<rparr>)])]"
    by (simp add: yahoo_data_def tickers_def fallbacks_def unit_fetch_def)
  have idx: "resync_index (yahoo_data unit_fetch) = [1]"
    by (simp add: d resync_index_def index_intersection_def)
  have t: "1 \<in> set (resync_index (yahoo_data unit_fetch))" by (simp add: idx)
  have p: "\<forall>df\<in>set (map snd (yahoo_data unit_fetch)). positive (row_at df 1)"
    by (simp add: d row_at_def positive_def)
  have g: "spec_geo_bar (map snd (yahoo_data unit_fetch)) 1 = \<lparr>Open = 1, High = 1, Low = 1, Close = 1\<rparr>"
    by (simp add: d spec_geo_bar_def spec_geo_mean_def row_at_def mean_def)
  show ?thesis
    using geometric_composite_positive [OF t p] idx g by simp
qed

lemma zero_open_data:
  "yahoo_data zero_open_fetch =
     [(''^IXIC'', [(1, \<lparr>Open = 0, High = 1, Low = 1, Close = 1\<rparr>)]),
      (''^GSPC'', [(1, \<lparr>Open = 1, High = 1, Low = 1, Close = 1\<rparr>)])]"
  by (simp add: yahoo_data_def tickers_def fallbacks_def zero_open_fetch_def)

lemma dropna_reindex_one:
  "dropna (reindex [t] [(t, b)]) = [(t, b)]"
  by (simp add: dropna_def reindex_def no_nan_def map_ohlc_def)

lemma geo_cell_zero: "np_exp (mean_log [np_log (Some 0), np_log (Some 1)]) = Some 0"
  by (simp add: np_exp_def mean_log_def np_log_def)

lemma geo_cell_one: "np_exp (mean_log [np_log (Some 1), np_log (Some 1)]) = Some 1"
  by (simp add: np_exp_def mean_log_def np_log_def mean_def)

text \<open>
  Claim C5 as stated fails: the code has no test for positive values. With two members on
  one common bar, one of them opening at zero, the bar is not dropped: it is emitted with
  the open 0.
\<close>

theorem geometric_zero_counterexample:
  "zero_open_fetch ''^IXIC'' = [(1, \<lparr>Open = 0, High = 1, Low = 1, Close = 1\<rparr>)] \<and>
   build_yahoo_composite zero_open_fetch = [(1, \<lparr>Open = 0, High = 1, Low = 1, Close = 1\<rparr>)]"
proof -
  have idx: "resync_index (yahoo_data zero_open_fetch) = [1]"
    by (simp add: zero_open_data resync_index_def index_intersection_def)
  have row: "geo_row [[(1, \<lparr>Open = 0, High = 1, Low = 1, Close = 1\<rparr>)],
                      [(1, \<lparr>Open = 1, High = 1, Low = 1, Close = 1\<rparr>)]] 1 =
             \<lparr>Open = Some 0, High = Some 1, Low = Some 1, Close = Some 1\<rparr>"
    by (simp add: geo_row_def geo_cell_def column_cells_def geo_cell_zero geo_cell_one)
  have "composite_of (yahoo_data zero_open_fetch) = [(1, \<lparr>Open = 0, High = 1, Low = 1, Close = 1\<rparr>)]"
    unfolding composite_of_def idx Let_def
    by (simp add: zero_open_data dropna_reindex_one row) (simp add: dropna_def no_nan_def map_ohlc_def)
  then show ?thesis
    by (simp add: build_yahoo_composite_def zero_open_fetch_def)
qed

end
